theory Spec2Isabelle
  imports Complex_Main "HOL-Library.Sublist"
begin

section \<open>Strings: the Python string operations the chunker uses\<close>

text \<open>
  Texts are ASCII strings. \<open>lower\<close> is \<^verbatim>\<open>str.lower()\<close>, \<open>py_split\<close> is
  \<^verbatim>\<open>str.split()\<close> without arguments (runs of whitespace separate the words, no
  empty word is produced), \<open>contains_str s sub\<close> is \<^verbatim>\<open>sub in s\<close>.
\<close>

definition lower_char :: "char \<Rightarrow> char" where
  "lower_char c =
     (let n = (of_char c :: nat) in if 65 \<le> n \<and> n \<le> 90 then char_of (n + 32) else c)"

definition lower :: "string \<Rightarrow> string" where
  "lower s = map lower_char s"

definition is_space :: "char \<Rightarrow> bool" where
  "is_space c = ((of_char c :: nat) \<in> {9, 10, 11, 12, 13, 28, 29, 30, 31, 32})"

fun split_ws :: "string \<Rightarrow> string \<Rightarrow> string list" where
  "split_ws cur [] = (if cur = [] then [] else [cur])"
| "split_ws cur (c # cs) =
     (if is_space c then (if cur = [] then split_ws [] cs else cur # split_ws [] cs)
      else split_ws (cur @ [c]) cs)"

definition py_split :: "string \<Rightarrow> string list" where
  "py_split s = split_ws [] s"

fun contains_str :: "string \<Rightarrow> string \<Rightarrow> bool" where
  "contains_str [] sub = (sub = [])"
| "contains_str (c # cs) sub = (prefix sub (c # cs) \<or> contains_str cs sub)"

section \<open>ContentChunker: relevance of a chunk to an image analysis\<close>

text \<open>
  \<^verbatim>\<open>ContentChunker._calculate_relevance_score\<close>. The score is the quotient of two
  non-negative integers, read here as an exact real number.
\<close>

definition calculate_relevance_score :: "string \<Rightarrow> string \<Rightarrow> real" where
  "calculate_relevance_score chunk_content image_analysis =
     (let chunk_words = set (py_split (lower chunk_content));
          analysis_words = set (py_split (lower image_analysis))
      in if chunk_words = {} \<or> analysis_words = {} then 0
         else
           (let overlap = card (chunk_words \<inter> analysis_words);
                total = card (chunk_words \<union> analysis_words)
            in if total > 0 then real overlap / real total else 0))"


section \<open>ContentChunker: chunks and their image context\<close>

text \<open>
  An image analysis is the dictionary returned by the vision agent; an image-context entry
  is the dictionary \<^verbatim>\<open>_get_chunk_image_context\<close> builds; a chunk is the dictionary
  \<^verbatim>\<open>chunk_text\<close> builds, whose keys \<^verbatim>\<open>image_context\<close> and \<^verbatim>\<open>has_images\<close> are
  present only after \<^verbatim>\<open>chunk_with_image_context\<close> (\<open>None\<close> is an absent key).
\<close>

record image_analysis =
  success :: bool
  image_id :: string
  analysis :: string
  page_number :: int

record image_entry =
  entry_image_id :: string
  entry_analysis :: string
  entry_page_number :: int
  relevance_score :: real

record chunk =
  chunk_id :: string
  content :: string
  metadata :: "(string \<times> string) list"
  chunk_index :: nat
  chunk_size :: nat
  start_char :: int
  end_char :: int
  image_context :: "image_entry list option"
  has_images :: "bool option"

text \<open>\<^verbatim>\<open>str(n)\<close> for a non-negative integer.\<close>

fun string_of_nat :: "nat \<Rightarrow> string" where
  "string_of_nat n =
     (if n < 10 then [char_of (48 + n)]
      else string_of_nat (n div 10) @ [char_of (48 + n mod 10)])"

declare string_of_nat.simps [simp del]

text \<open>
  The test of \<^verbatim>\<open>_get_chunk_image_context\<close> that admits an analysis: the lower-cased
  image id occurs in the chunk text, or one of the first ten lower-cased words of the
  analysis does.
\<close>

definition image_relevant :: "string \<Rightarrow> image_analysis \<Rightarrow> bool" where
  "image_relevant chunk_content a =
     (contains_str chunk_content (lower (image_id a)) \<or>
      list_ex (\<lambda>word. contains_str chunk_content word) (take 10 (py_split (lower (analysis a)))))"

definition make_image_entry :: "string \<Rightarrow> image_analysis \<Rightarrow> image_entry" where
  "make_image_entry chunk_content a =
     \<lparr>entry_image_id = image_id a, entry_analysis = analysis a,
      entry_page_number = page_number a,
      relevance_score = calculate_relevance_score chunk_content (analysis a)\<rparr>"

fun collect_relevant_images :: "string \<Rightarrow> image_analysis list \<Rightarrow> image_entry list" where
  "collect_relevant_images chunk_content [] = []"
| "collect_relevant_images chunk_content (a # rest) =
     (if \<not> success a then collect_relevant_images chunk_content rest
      else if image_relevant chunk_content a
        then make_image_entry chunk_content a # collect_relevant_images chunk_content rest
        else collect_relevant_images chunk_content rest)"

text \<open>
  \<^verbatim>\<open>list.sort(key=..., reverse=True)\<close> is stable: entries of equal score keep their
  order, which is a stable ascending sort on the negated score.
\<close>

definition get_chunk_image_context :: "chunk \<Rightarrow> image_analysis list \<Rightarrow> image_entry list" where
  "get_chunk_image_context c image_analyses =
     (let chunk_content = lower (content c);
          relevant_images = collect_relevant_images chunk_content image_analyses
      in sort_key (\<lambda>x. - relevance_score x) relevant_images)"

section \<open>ContentChunker: merging small chunks\<close>

definition merge_into :: "chunk \<Rightarrow> chunk \<Rightarrow> chunk" where
  "merge_into current_chunk next_chunk =
     current_chunk
       \<lparr>content := content current_chunk @ [CHR 0x0A, CHR 0x0A] @ content next_chunk,
        end_char := end_char next_chunk,
        image_context :=
          (case (image_context current_chunk, image_context next_chunk) of
             (Some cur, Some nxt) \<Rightarrow> Some (cur @ nxt)
           | (None, Some nxt) \<Rightarrow> Some nxt
           | (cur, None) \<Rightarrow> cur),
        has_images :=
          Some ((case has_images current_chunk of None \<Rightarrow> False | Some b \<Rightarrow> b) \<or>
                (case has_images next_chunk of None \<Rightarrow> False | Some b \<Rightarrow> b))\<rparr>"

fun merge_loop :: "int \<Rightarrow> chunk list \<Rightarrow> chunk \<Rightarrow> chunk list \<Rightarrow> chunk list" where
  "merge_loop min_chunk_size merged_chunks current_chunk [] = merged_chunks @ [current_chunk]"
| "merge_loop min_chunk_size merged_chunks current_chunk (next_chunk # rest) =
     (if int (length (content current_chunk)) < min_chunk_size
      then merge_loop min_chunk_size merged_chunks (merge_into current_chunk next_chunk) rest
      else merge_loop min_chunk_size (merged_chunks @ [current_chunk]) next_chunk rest)"

definition renumber :: "chunk list \<Rightarrow> chunk list" where
  "renumber cs =
     map (\<lambda>(i, c). c\<lparr>chunk_id := ''chunk_'' @ string_of_nat (i + 1), chunk_index := i + 1\<rparr>)
         (enumerate 0 cs)"

definition merge_small_chunks :: "chunk list \<Rightarrow> int \<Rightarrow> chunk list" where
  "merge_small_chunks chunks min_chunk_size =
     (case chunks of
        [] \<Rightarrow> chunks
      | first # others \<Rightarrow> renumber (merge_loop min_chunk_size [] first others))"

text \<open>A chunk as \<^verbatim>\<open>chunk_text\<close> builds it, for the examples below.\<close>

definition example_chunk :: "nat \<Rightarrow> string \<Rightarrow> chunk" where
  "example_chunk i s =
     \<lparr>chunk_id = ''chunk_'' @ string_of_nat i, content = s, metadata = [], chunk_index = i,
      chunk_size = length s, start_char = 0, end_char = int (length s),
      image_context = None, has_images = None\<rparr>"

section \<open>EmbeddingService: batched embedding generation with retries\<close>

text \<open>
  \<^verbatim>\<open>EmbeddingService._generate_embeddings_batch\<close>. The Azure OpenAI client is outside
  the repository: it is a parameter, a function of the number of calls made so far and of
  the batch, returning \<open>None\<close> when the call (or reading its response) raises. The state
  of the loop keeps, besides the embeddings collected, the number of calls made and the
  delays slept, so that retries and backoff can be observed. Floats are read as reals.
  \<^verbatim>\<open>range(0, len(texts), 0)\<close> raises \<^verbatim>\<open>ValueError\<close>.
\<close>

type_synonym vector = "real list"

datatype py_error = ValueError

record embedding_service =
  max_retries :: nat
  retry_delay :: real
  batch_size :: nat

definition EmbeddingService_init :: embedding_service where
  "EmbeddingService_init = \<lparr>max_retries = 3, retry_delay = 1, batch_size = 16\<rparr>"

definition default_embedding_dimension :: nat where
  "default_embedding_dimension = 1536"

type_synonym embeddings_client = "nat \<Rightarrow> string list \<Rightarrow> vector list option"

record batch_state =
  all_embeddings :: "vector list"
  calls :: nat
  sleeps :: "real list"

function attempt_loop ::
  "embedding_service \<Rightarrow> embeddings_client \<Rightarrow> string list \<Rightarrow> nat \<Rightarrow> batch_state \<Rightarrow> batch_state"
where
  "attempt_loop svc client batch_texts attempt st =
     (if attempt < max_retries svc then
        (case client (calls st) batch_texts of
           Some batch_embeddings \<Rightarrow>
             st\<lparr>all_embeddings := all_embeddings st @ batch_embeddings, calls := calls st + 1\<rparr>
         | None \<Rightarrow>
             (if int attempt < int (max_retries svc) - 1
              then attempt_loop svc client batch_texts (attempt + 1)
                     (st\<lparr>calls := calls st + 1,
                         sleeps := sleeps st @ [retry_delay svc * 2 ^ attempt]\<rparr>)
              else attempt_loop svc client batch_texts (attempt + 1)
                     (st\<lparr>calls := calls st + 1,
                         all_embeddings := all_embeddings st @
                           replicate (length batch_texts) (replicate default_embedding_dimension 0)\<rparr>)))
      else st)"
  by pat_completeness auto
termination
  by (relation "measure (\<lambda>(svc, client, batch_texts, attempt, st). max_retries svc - attempt)") auto

declare attempt_loop.simps [simp del]

function batch_loop ::
  "embedding_service \<Rightarrow> embeddings_client \<Rightarrow> string list \<Rightarrow> nat \<Rightarrow> batch_state \<Rightarrow> batch_state"
where
  "batch_loop svc client texts i st =
     (if i < length texts \<and> 0 < batch_size svc
      then batch_loop svc client texts (i + batch_size svc)
             (attempt_loop svc client (take (batch_size svc) (drop i texts)) 0 st)
      else st)"
  by pat_completeness auto
termination
  by (relation "measure (\<lambda>(svc, client, texts, i, st). length texts - i)") auto

declare batch_loop.simps [simp del]

definition run_embeddings_batch ::
  "embedding_service \<Rightarrow> embeddings_client \<Rightarrow> string list \<Rightarrow> py_error + batch_state" where
  "run_embeddings_batch svc client texts =
     (if batch_size svc = 0 then Inl ValueError
      else Inr (batch_loop svc client texts 0 \<lparr>all_embeddings = [], calls = 0, sleeps = []\<rparr>))"

definition generate_embeddings_batch ::
  "embedding_service \<Rightarrow> embeddings_client \<Rightarrow> string list \<Rightarrow> py_error + vector list" where
  "generate_embeddings_batch svc client texts =
     map_sum id all_embeddings (run_embeddings_batch svc client texts)"







section \<open>ChunkingService: chunks of a document\<close>

text \<open>
  \<^verbatim>\<open>ChunkingService\<close> of the complete pipeline. \<open>extract_page_number\<close> is the
  search for the first match of \<^verbatim>\<open>--- Page (\d+) ---\<close>. The text splitter of the
  langchain library is outside the repository: \<open>splitter\<close> holds it when the library
  was imported, and is \<open>None\<close> otherwise, when \<open>basic_text_split\<close> is used.
\<close>

definition is_digit :: "char \<Rightarrow> bool" where
  "is_digit c = (let n = (of_char c :: nat) in 48 \<le> n \<and> n \<le> 57)"

fun int_of_digits :: "int \<Rightarrow> string \<Rightarrow> int" where
  "int_of_digits acc [] = acc"
| "int_of_digits acc (d # ds) = int_of_digits (10 * acc + (int (of_char d) - 48)) ds"

definition match_page_marker :: "string \<Rightarrow> int option" where
  "match_page_marker s =
     (if prefix ''--- Page '' s then
        (let rest = drop 9 s; ds = takeWhile is_digit rest
         in if ds \<noteq> [] \<and> prefix '' ---'' (dropWhile is_digit rest)
            then Some (int_of_digits 0 ds) else None)
      else None)"

fun search_page_marker :: "string \<Rightarrow> int option" where
  "search_page_marker [] = None"
| "search_page_marker (c # cs) =
     (case match_page_marker (c # cs) of
        Some n \<Rightarrow> Some n
      | None \<Rightarrow> search_page_marker cs)"

definition extract_page_number :: "string \<Rightarrow> int" where
  "extract_page_number chunk_text =
     (case search_page_marker chunk_text of Some n \<Rightarrow> n | None \<Rightarrow> 0)"

fun join_space :: "string list \<Rightarrow> string" where
  "join_space [] = []"
| "join_space [w] = w"
| "join_space (w # ws) = w @ '' '' @ join_space ws"

fun basic_split_loop ::
  "int \<Rightarrow> string list \<Rightarrow> string list \<Rightarrow> int \<Rightarrow> string list \<Rightarrow> string list" where
  "basic_split_loop size_limit chunks current_chunk current_length [] =
     (if current_chunk \<noteq> [] then chunks @ [join_space current_chunk] else chunks)"
| "basic_split_loop size_limit chunks current_chunk current_length (word # rest) =
     (if current_length + int (length word) + 1 > size_limit \<and> current_chunk \<noteq> []
      then basic_split_loop size_limit (chunks @ [join_space current_chunk]) [word]
             (int (length word)) rest
      else basic_split_loop size_limit chunks (current_chunk @ [word])
             (current_length + int (length word) + 1) rest)"

record chunking_service =
  service_chunk_size :: int
  service_chunk_overlap :: int
  splitter :: "(string \<Rightarrow> string list) option"

definition basic_text_split :: "chunking_service \<Rightarrow> string \<Rightarrow> string list" where
  "basic_text_split svc text = basic_split_loop (service_chunk_size svc) [] [] 0 (py_split text)"

datatype chunk_type = Text | Visual

record doc_chunk =
  doc_chunk_id :: string
  doc_content :: string
  doc_chunk_type :: chunk_type
  doc_chunk_index :: nat
  doc_page_number :: int

definition text_chunk_dicts :: "string list \<Rightarrow> doc_chunk list" where
  "text_chunk_dicts text_chunks =
     map (\<lambda>(i, c). \<lparr>doc_chunk_id = ''text_chunk_'' @ string_of_nat i, doc_content = c,
                    doc_chunk_type = Text, doc_chunk_index = i,
                    doc_page_number = extract_page_number c\<rparr>)
         (enumerate 0 text_chunks)"

fun append_visual_chunks :: "doc_chunk list \<Rightarrow> nat \<Rightarrow> image_analysis list \<Rightarrow> doc_chunk list" where
  "append_visual_chunks chunks i [] = chunks"
| "append_visual_chunks chunks i (a # rest) =
     append_visual_chunks
       (chunks @ [\<lparr>doc_chunk_id = ''visual_chunk_'' @ string_of_nat i,
                   doc_content = ''[Image Summary: '' @ analysis a @ '']'',
                   doc_chunk_type = Visual, doc_chunk_index = length chunks + i,
                   doc_page_number = page_number a\<rparr>])
       (i + 1) rest"

definition chunk_document :: "chunking_service \<Rightarrow> string \<Rightarrow> image_analysis list \<Rightarrow> doc_chunk list" where
  "chunk_document svc text_content visual_analysis =
     (let text_chunks = (case splitter svc of
                           Some split_text \<Rightarrow> split_text text_content
                         | None \<Rightarrow> basic_text_split svc text_content)
      in append_visual_chunks (text_chunk_dicts text_chunks) 0 visual_analysis)"

section \<open>ContentChunker: chunking a text\<close>

text \<open>
  \<^verbatim>\<open>ContentChunker.chunk_text\<close>; \<open>py_find\<close> is \<^verbatim>\<open>str.find\<close>. The langchain
  splitter is a parameter that returns \<open>None\<close> when it raises, in which case the
  chunker returns the empty list.
\<close>

fun find_from :: "string \<Rightarrow> string \<Rightarrow> nat \<Rightarrow> int" where
  "find_from [] sub k = (if sub = [] then int k else - 1)"
| "find_from (c # cs) sub k = (if prefix sub (c # cs) then int k else find_from cs sub (k + 1))"

definition py_find :: "string \<Rightarrow> string \<Rightarrow> int" where
  "py_find s sub = find_from s sub 0"

definition chunk_text ::
  "(string \<Rightarrow> string list option) \<Rightarrow> string \<Rightarrow> (string \<times> string) list \<Rightarrow> chunk list" where
  "chunk_text text_splitter text_content md =
     (case text_splitter text_content of
        None \<Rightarrow> []
      | Some pieces \<Rightarrow>
          map (\<lambda>(i, page_content).
                 \<lparr>chunk_id = ''chunk_'' @ string_of_nat (i + 1), content = page_content,
                  metadata = md, chunk_index = i + 1, chunk_size = length page_content,
                  start_char = py_find text_content page_content,
                  end_char = py_find text_content page_content + int (length page_content),
                  image_context = None, has_images = None\<rparr>)
              (enumerate 0 pieces))"

section \<open>PDFExtractor: grouping drawings by proximity\<close>

text \<open>
  A drawing is the dictionary PyMuPDF returns for a vector drawing; \<open>seqno\<close> stands for
  the rest of its keys. \<open>get_rect\<close> is \<^verbatim>\<open>drawing.get('rect', [0, 0, 0, 0])\<close> together
  with the truth value the code then tests: \<open>Missing\<close> is an absent key, for which the
  default list applies (a non-empty list, hence true); \<open>Falsy\<close> is a value that tests
  false (\<^verbatim>\<open>None\<close>, or PyMuPDF's empty rectangle), read as \<open>None\<close>; \<open>Rect\<close> is
  any other rectangle. Coordinates are floats, read as reals; \<^verbatim>\<open>x ** 0.5\<close> is the
  square root. The set \<open>used\<close> holds the indices already placed in a group.
\<close>

type_synonym bbox = "real \<times> real \<times> real \<times> real"

datatype rect_entry = Missing | Falsy | Rect real real real real

record drawing =
  seqno :: nat
  rect :: rect_entry

definition get_rect :: "drawing \<Rightarrow> bbox option" where
  "get_rect d =
     (case rect d of
        Missing \<Rightarrow> Some (0, 0, 0, 0)
      | Falsy \<Rightarrow> None
      | Rect x0 y0 x1 y1 \<Rightarrow> Some (x0, y0, x1, y1))"

definition are_bboxes_close :: "bbox option \<Rightarrow> bbox option \<Rightarrow> real \<Rightarrow> bool" where
  "are_bboxes_close bbox1 bbox2 threshold =
     (case (bbox1, bbox2) of
        (Some (a0, a1, a2, a3), Some (b0, b1, b2, b3)) \<Rightarrow>
          (let center1 = ((a0 + a2) / 2, (a1 + a3) / 2);
               center2 = ((b0 + b2) / 2, (b1 + b3) / 2);
               distance = sqrt ((fst center1 - fst center2)\<^sup>2 + (snd center1 - snd center2)\<^sup>2)
           in distance < threshold)
      | _ \<Rightarrow> False)"

fun inner_loop ::
  "bbox option \<Rightarrow> real \<Rightarrow> (nat \<times> drawing) list \<Rightarrow> drawing list \<times> nat set \<Rightarrow> drawing list \<times> nat set"
where
  "inner_loop bbox1 threshold [] (grp, used) = (grp, used)"
| "inner_loop bbox1 threshold ((j, other_drawing) # rest) (grp, used) =
     (if j \<in> used then inner_loop bbox1 threshold rest (grp, used)
      else if are_bboxes_close bbox1 (get_rect other_drawing) threshold
        then inner_loop bbox1 threshold rest (grp @ [other_drawing], insert j used)
        else inner_loop bbox1 threshold rest (grp, used))"

fun outer_loop ::
  "drawing list \<Rightarrow> real \<Rightarrow> (nat \<times> drawing) list \<Rightarrow> drawing list list \<times> nat set \<Rightarrow>
   drawing list list \<times> nat set"
where
  "outer_loop drawings threshold [] (groups, used) = (groups, used)"
| "outer_loop drawings threshold ((i, d) # rest) (groups, used) =
     (if i \<in> used then outer_loop drawings threshold rest (groups, used)
      else
        (let (grp, used') =
               inner_loop (get_rect d) threshold (enumerate 0 drawings) ([d], insert i used)
         in outer_loop drawings threshold rest (groups @ [grp], used')))"

definition group_drawings_by_proximity :: "drawing list \<Rightarrow> real \<Rightarrow> drawing list list" where
  "group_drawings_by_proximity drawings proximity_threshold =
     (if drawings = [] then []
      else fst (outer_loop drawings proximity_threshold (enumerate 0 drawings) ([], {})))"

text \<open>
  The grouping as the specification words it: each primitive not yet in a group, taken in
  input order, starts a group made of itself and of every primitive after it, not yet in
  a group, whose rectangle centre is at Euclidean distance below the threshold from its
  own; primitives without a rectangle are near nothing.
\<close>

definition center :: "bbox \<Rightarrow> real \<times> real" where
  "center b = (case b of (x0, y0, x1, y1) \<Rightarrow> ((x0 + x1) / 2, (y0 + y1) / 2))"

definition center_distance :: "bbox \<Rightarrow> bbox \<Rightarrow> real" where
  "center_distance b1 b2 =
     sqrt ((fst (center b1) - fst (center b2))\<^sup>2 + (snd (center b1) - snd (center b2))\<^sup>2)"

definition near :: "real \<Rightarrow> drawing \<Rightarrow> drawing \<Rightarrow> bool" where
  "near threshold p q =
     (case (get_rect p, get_rect q) of
        (Some b1, Some b2) \<Rightarrow> center_distance b1 b2 < threshold
      | _ \<Rightarrow> False)"

function anchor_groups :: "real \<Rightarrow> drawing list \<Rightarrow> drawing list list" where
  "anchor_groups threshold [] = []"
| "anchor_groups threshold (p # rest) =
     (p # filter (near threshold p) rest) #
     anchor_groups threshold (filter (\<lambda>q. \<not> near threshold p q) rest)"
  by pat_completeness auto
termination
  by (relation "measure (\<lambda>(threshold, ds). length ds)") (auto simp: less_Suc_eq_le)

section \<open>PDFExtractor: bounding boxes and visual elements\<close>

text \<open>
  \<open>get_drawings_bbox\<close> starts from the rectangle (inf, inf, -inf, -inf), here
  \<open>InfBox\<close>; after the first drawing with a rectangle all four coordinates are finite.
  \<open>rect_width\<close> and \<open>rect_height\<close> are PyMuPDF's \<^verbatim>\<open>Rect.width\<close> and
  \<^verbatim>\<open>Rect.height\<close>, \<^verbatim>\<open>max(0, x1 - x0)\<close> and \<^verbatim>\<open>max(0, y1 - y0)\<close>. Rendering the
  clip, saving it, reading it back and hashing it are outside the repository: \<open>render\<close>
  is a parameter that returns \<open>None\<close> when one of them raises, in which case the
  element is skipped. The set of temporary file names the extractor keeps is not modelled.
\<close>

datatype union_box = InfBox | Box real real real real

fun bbox_loop :: "union_box \<Rightarrow> drawing list \<Rightarrow> union_box" where
  "bbox_loop acc [] = acc"
| "bbox_loop acc (d # rest) =
     (case get_rect d of
        None \<Rightarrow> bbox_loop acc rest
      | Some (r0, r1, r2, r3) \<Rightarrow>
          bbox_loop
            (case acc of
               InfBox \<Rightarrow> Box r0 r1 r2 r3
             | Box min_x min_y max_x max_y \<Rightarrow>
                 Box (min min_x r0) (min min_y r1) (max max_x r2) (max max_y r3))
            rest)"

definition get_drawings_bbox :: "drawing list \<Rightarrow> union_box" where
  "get_drawings_bbox drawings = (if drawings = [] then Box 0 0 0 0 else bbox_loop InfBox drawings)"

fun rect_width :: "union_box \<Rightarrow> real" where
  "rect_width InfBox = 0"
| "rect_width (Box x0 y0 x1 y1) = max 0 (x1 - x0)"

fun rect_height :: "union_box \<Rightarrow> real" where
  "rect_height InfBox = 0"
| "rect_height (Box x0 y0 x1 y1) = max 0 (y1 - y0)"

record rendered =
  img_size :: nat
  img_width :: nat
  img_height :: nat
  img_hash :: string

record visual_element =
  ve_id :: string
  ve_type :: string
  ve_page_number :: nat
  ve_image_index :: nat
  ve_path :: string
  ve_format :: string
  ve_size :: nat
  ve_width :: nat
  ve_height :: nat
  ve_hash :: string
  ve_extraction_method :: string
  ve_bbox :: union_box
  ve_drawing_count :: nat

fun elements_loop ::
  "(union_box \<Rightarrow> rendered option) \<Rightarrow> string \<Rightarrow> nat \<Rightarrow> string \<Rightarrow>
   (nat \<times> drawing list) list \<Rightarrow> visual_element list \<Rightarrow> visual_element list"
where
  "elements_loop render temp_dir page_num filename [] elements = elements"
| "elements_loop render temp_dir page_num filename ((elem_index, element_drawings) # rest) elements =
     (let bbox = get_drawings_bbox element_drawings
      in if rect_width bbox < 20 \<or> rect_height bbox < 20
         then elements_loop render temp_dir page_num filename rest elements
         else
           (case render bbox of
              None \<Rightarrow> elements_loop render temp_dir page_num filename rest elements
            | Some img \<Rightarrow>
                (let elem_id = filename @ ''_page'' @ string_of_nat (page_num + 1) @
                               ''_visual_elem'' @ string_of_nat (elem_index + 1);
                     elem_path = temp_dir @ ''/'' @ elem_id @ ''.png''
                 in if img_size img < 100
                    then elements_loop render temp_dir page_num filename rest elements
                    else elements_loop render temp_dir page_num filename rest
                           (elements @
                            [\<lparr>ve_id = elem_id, ve_type = ''visual_element'',
                              ve_page_number = page_num + 1, ve_image_index = elem_index + 1,
                              ve_path = elem_path, ve_format = ''png'', ve_size = img_size img,
                              ve_width = img_width img, ve_height = img_height img,
                              ve_hash = img_hash img,
                              ve_extraction_method = ''PyMuPDF_VisualElements'',
                              ve_bbox = bbox,
                              ve_drawing_count = length element_drawings\<rparr>]))))"

definition extract_drawing_elements ::
  "(union_box \<Rightarrow> rendered option) \<Rightarrow> string \<Rightarrow> drawing list \<Rightarrow> nat \<Rightarrow> string \<Rightarrow>
   visual_element list"
where
  "extract_drawing_elements render temp_dir drawings_list page_num filename =
     (if drawings_list = [] then []
      else elements_loop render temp_dir page_num filename
             (enumerate 0 (group_drawings_by_proximity drawings_list 50)) [])"

section \<open>CompleteIngestionPipeline: processing with a storage check\<close>

text \<open>
  The state of the world the pipeline acts on: the local files, the blob container (with
  whether the storage client could be set up), the search index, and the three lists the
  pipeline object keeps. \<open>work_log\<close> records the work done, one event per stage. The
  collaborators outside the repository are the fields of \<open>env\<close>: the document
  pipeline (which catches its own exceptions and reports failure in its result), whether
  the existence probe of a stored blob returns (\<^verbatim>\<open>file_exists_in_storage\<close> answers
  False when \<^verbatim>\<open>get_blob_properties\<close> raises, for whatever reason), whether an upload
  to the index or to the blob container succeeds, the SHA-256 digest, and the deletion of
  temporary files. \<open>path_name\<close> is \<^verbatim>\<open>Path(p).name\<close> for POSIX paths.
  What is passed for \<^verbatim>\<open>original_filename\<close> is a Python value of any kind, since the
  batch wrapper passes a boolean there. Document ids, tags and timestamps of the index documents are
  not modelled; the pipeline result has no \<^verbatim>\<open>visual_analysis\<close> key, so
  \<open>chunk_document\<close> receives the empty list. A blob name that is not a string makes the
  storage client raise, which \<open>upload_to_storage\<close> reports as failure.
\<close>

fun split_path :: "string \<Rightarrow> string \<Rightarrow> string list" where
  "split_path cur [] = [cur]"
| "split_path cur (c # cs) =
     (if c = CHR ''/'' then cur # split_path [] cs else split_path (cur @ [c]) cs)"

definition path_name :: "string \<Rightarrow> string" where
  "path_name file_path =
     (let parts = filter (\<lambda>p. p \<noteq> [] \<and> p \<noteq> ''.'') (split_path [] file_path)
      in if parts = [] then [] else last parts)"

datatype pyval = PyNone | PyStr string | PyBool bool

fun truthy :: "pyval \<Rightarrow> bool" where
  "truthy PyNone = False"
| "truthy (PyStr s) = (s \<noteq> [])"
| "truthy (PyBool b) = b"

datatype extraction = ExtractionFailed string | Extracted string nat

datatype event =
    Extract string
  | Chunk nat
  | Embed nat
  | IndexWrite nat
  | BlobWrite string

record index_doc =
  idx_content :: string
  idx_chunk_index :: nat
  idx_filename :: string
  idx_page_number :: int
  idx_chunk_type :: chunk_type

record blob =
  blob_data :: string
  blob_file_hash :: string
  blob_chunks_created :: nat
  blob_chunks_uploaded :: nat

record processed_info =
  info_filename :: string
  info_chunks_created :: nat
  info_chunks_uploaded :: nat
  info_total_images :: nat
  info_vector_storage_success :: bool
  info_blob_storage_uploaded :: bool
  info_file_hash :: string
  info_file_exists_in_storage :: bool

datatype file_result =
    NotFound string
  | Skipped string
  | Processed processed_info
  | Failed string

record world =
  local_files :: "string \<rightharpoonup> string"
  storage_available :: bool
  blobs :: "string \<rightharpoonup> blob"
  search_index :: "index_doc list"
  work_log :: "event list"
  processed_files :: "processed_info list"
  skipped_files :: "string list"
  failed_files :: "(string \<times> string) list"

record env =
  process_document :: "string \<Rightarrow> string \<Rightarrow> bool \<Rightarrow> extraction"
  chunking :: chunking_service
  embeddings_client :: embeddings_client
  search_upload_ok :: "index_doc list \<Rightarrow> bool"
  blob_probe_ok :: "string \<Rightarrow> bool"
  blob_upload_ok :: "string \<Rightarrow> bool"
  sha256 :: "string \<Rightarrow> string"
  cleanup_temp_files :: "string \<Rightarrow> (string \<rightharpoonup> string) \<Rightarrow> (string \<rightharpoonup> string)"

definition file_exists_in_storage :: "env \<Rightarrow> world \<Rightarrow> string \<Rightarrow> bool" where
  "file_exists_in_storage e w file_path =
     (if \<not> storage_available w then False
      else
        (case blobs w (path_name file_path) of
           None \<Rightarrow> False
         | Some b \<Rightarrow> if blob_probe_ok e (path_name file_path) then True else False))"

definition generate_embeddings ::
  "embedding_service \<Rightarrow> embeddings_client \<Rightarrow> doc_chunk list \<Rightarrow> (doc_chunk \<times> vector option) list"
where
  "generate_embeddings svc client chunks =
     (case generate_embeddings_batch svc client (map doc_content chunks) of
        Inl e \<Rightarrow> map (\<lambda>c. (c, None)) chunks
      | Inr embeddings \<Rightarrow>
          map (\<lambda>(c, e). (c, Some e)) (zip chunks embeddings) @
          map (\<lambda>c. (c, None)) (drop (length embeddings) chunks))"

definition upload_chunks ::
  "env \<Rightarrow> world \<Rightarrow> (doc_chunk \<times> vector option) list \<Rightarrow> string \<Rightarrow> bool \<times> world" where
  "upload_chunks e w chunks filename =
     (let docs = map (\<lambda>(c, v). \<lparr>idx_content = doc_content c, idx_chunk_index = doc_chunk_index c,
                                 idx_filename = filename, idx_page_number = doc_page_number c,
                                 idx_chunk_type = doc_chunk_type c\<rparr>) chunks
      in if search_upload_ok e docs
         then (True, w\<lparr>search_index := search_index w @ docs,
                       work_log := work_log w @ [IndexWrite (length docs)]\<rparr>)
         else (False, w))"

definition upload_to_storage ::
  "env \<Rightarrow> world \<Rightarrow> string \<Rightarrow> pyval \<Rightarrow> blob \<Rightarrow> bool \<times> world" where
  "upload_to_storage e w file_path blob_name b =
     (if \<not> storage_available w then (False, w)
      else
        (case (case blob_name of PyNone \<Rightarrow> PyStr (path_name file_path) | v \<Rightarrow> v) of
           PyStr name \<Rightarrow>
             if blob_upload_ok e name
             then (True, w\<lparr>blobs := (blobs w)(name \<mapsto> b),
                           work_log := work_log w @ [BlobWrite name]\<rparr>)
             else (False, w)
         | _ \<Rightarrow> (False, w)))"

definition process_file_with_storage_check ::
  "env \<Rightarrow> world \<Rightarrow> string \<Rightarrow> pyval \<Rightarrow> bool \<Rightarrow> bool \<Rightarrow> bool \<Rightarrow> file_result \<times> world" where
  "process_file_with_storage_check e w file_path original_filename force_reprocess
      save_outputs auto_cleanup =
     (case local_files w file_path of
        None \<Rightarrow>
          (NotFound (''File not found: '' @ file_path),
           w\<lparr>failed_files := failed_files w @ [(file_path, ''File not found: '' @ file_path)]\<rparr>)
      | Some data \<Rightarrow>
          (let file_exists = file_exists_in_storage e w file_path
           in if file_exists \<and> \<not> force_reprocess
              then (Skipped (path_name file_path),
                    w\<lparr>skipped_files := skipped_files w @ [file_path]\<rparr>)
              else
                (let file_hash = sha256 e data;
                     w1 = w\<lparr>work_log := work_log w @ [Extract file_path]\<rparr>;
                     (result, w') =
                       (case process_document e file_path data save_outputs of
                          ExtractionFailed err \<Rightarrow>
                            (Failed err, w1\<lparr>failed_files := failed_files w1 @ [(file_path, err)]\<rparr>)
                        | Extracted text_content total_images \<Rightarrow>
                            (let chunks = chunk_document (chunking e) text_content [];
                                 w2 = w1\<lparr>work_log := work_log w1 @ [Chunk (length chunks)]\<rparr>;
                                 embedded_chunks =
                                   generate_embeddings EmbeddingService_init (embeddings_client e) chunks;
                                 w3 = w2\<lparr>work_log := work_log w2 @ [Embed (length chunks)]\<rparr>
                             in if embedded_chunks \<noteq> []
                                then
                                  (let (upload_success, w4) =
                                         upload_chunks e w3 embedded_chunks (path_name file_path)
                                   in if upload_success
                                      then
                                        (let blob_filename =
                                               (if truthy original_filename then original_filename
                                                else PyStr (path_name file_path));
                                             (blob_upload_success, w5) =
                                               upload_to_storage e w4 file_path blob_filename
                                                 \<lparr>blob_data = data, blob_file_hash = file_hash,
                                                  blob_chunks_created = length chunks,
                                                  blob_chunks_uploaded = length embedded_chunks\<rparr>;
                                             info =
                                               \<lparr>info_filename = path_name file_path,
                                                info_chunks_created = length chunks,
                                                info_chunks_uploaded = length embedded_chunks,
                                                info_total_images = total_images,
                                                info_vector_storage_success = upload_success,
                                                info_blob_storage_uploaded = blob_upload_success,
                                                info_file_hash = file_hash,
                                                info_file_exists_in_storage = file_exists\<rparr>
                                         in (Processed info,
                                             w5\<lparr>processed_files := processed_files w5 @ [info]\<rparr>))
                                      else
                                        (Failed ''Failed to upload chunks to Azure AI Search'',
                                         w4\<lparr>failed_files := failed_files w4 @
                                              [(file_path, ''Failed to upload chunks to Azure AI Search'')]\<rparr>))
                                else
                                  (Failed ''Failed to generate embeddings'',
                                   w3\<lparr>failed_files := failed_files w3 @
                                        [(file_path, ''Failed to generate embeddings'')]\<rparr>)))
                 in (result,
                     if auto_cleanup
                     then w'\<lparr>local_files := cleanup_temp_files e file_path (local_files w')\<rparr>
                     else w'))))"

text \<open>
  \<^verbatim>\<open>process_batch_with_storage_check\<close> calls
  \<^verbatim>\<open>self.process_file_with_storage_check(file_path, force_reprocess, save_outputs, auto_cleanup)\<close>
  with positional arguments, against the parameter list
  \<^verbatim>\<open>(file_path, original_filename, force_reprocess, save_outputs, auto_cleanup)\<close>.
\<close>

fun process_batch_loop ::
  "env \<Rightarrow> bool \<Rightarrow> bool \<Rightarrow> bool \<Rightarrow> string list \<Rightarrow> file_result list \<times> world \<Rightarrow>
   file_result list \<times> world"
where
  "process_batch_loop e force_reprocess save_outputs auto_cleanup [] (results, w) = (results, w)"
| "process_batch_loop e force_reprocess save_outputs auto_cleanup (file_path # rest) (results, w) =
     (let (result, w') =
            process_file_with_storage_check e w file_path (PyBool force_reprocess) save_outputs
              auto_cleanup True
      in process_batch_loop e force_reprocess save_outputs auto_cleanup rest (results @ [result], w'))"

definition process_batch_with_storage_check ::
  "env \<Rightarrow> world \<Rightarrow> string list \<Rightarrow> bool \<Rightarrow> bool \<Rightarrow> bool \<Rightarrow> file_result list \<times> world" where
  "process_batch_with_storage_check e w file_paths force_reprocess save_outputs auto_cleanup =
     process_batch_loop e force_reprocess save_outputs auto_cleanup file_paths ([], w)"


text \<open>
  A world and an environment for the examples: two local files with the same bytes, an
  empty blob container, an extraction that returns the bytes as text, services that
  succeed, and the identity as a stand-in for the digest.
\<close>

definition demo_env :: env where
  "demo_env =
     \<lparr>process_document = (\<lambda>file_path data save_outputs. Extracted data 0),
      chunking = \<lparr>service_chunk_size = 1000, service_chunk_overlap = 200, splitter = None\<rparr>,
      embeddings_client = (\<lambda>n ts. Some (map (\<lambda>t. [1]) ts)),
      search_upload_ok = (\<lambda>docs. True),
      blob_probe_ok = (\<lambda>name. True),
      blob_upload_ok = (\<lambda>name. True),
      sha256 = (\<lambda>data. data),
      cleanup_temp_files = (\<lambda>file_path files. files)\<rparr>"

definition demo_env_probe_fails :: env where
  "demo_env_probe_fails = demo_env\<lparr>blob_probe_ok := (\<lambda>name. False)\<rparr>"

definition demo_world :: world where
  "demo_world =
     \<lparr>local_files = [''a.txt'' \<mapsto> ''hello world'', ''b.txt'' \<mapsto> ''hello world''],
      storage_available = True,
      blobs = Map.empty,
      search_index = [],
      work_log = [],
      processed_files = [],
      skipped_files = [],
      failed_files = []\<rparr>"

definition demo_after_first :: world where
  "demo_after_first =
     snd (process_file_with_storage_check demo_env demo_world ''a.txt'' PyNone False False True)"

section \<open>Relevance bounds\<close>

lemma relevance_score_nonneg: "0 \<le> calculate_relevance_score c a"
  by (simp add: calculate_relevance_score_def Let_def)

lemma relevance_score_le_one: "calculate_relevance_score c a \<le> 1"
proof -
  have "card (set (py_split (lower c)) \<inter> set (py_split (lower a)))
        \<le> card (set (py_split (lower c)) \<union> set (py_split (lower a)))"
    by (rule card_mono) auto
  then show ?thesis
    by (simp add: calculate_relevance_score_def Let_def divide_le_eq_1)
qed

text \<open>
  Claim C5. For every chunk text and analysis text the relevance score lies between 0 and
  1; it is 0 when the lower-cased word sets of the two texts share no word, and 1 when
  the two word sets are equal and not empty.
\<close>

theorem C5_relevance_bounds:
  "0 \<le> calculate_relevance_score c a \<and> calculate_relevance_score c a \<le> 1 \<and>
   (set (py_split (lower c)) \<inter> set (py_split (lower a)) = {} \<longrightarrow>
      calculate_relevance_score c a = 0) \<and>
   (set (py_split (lower c)) = set (py_split (lower a)) \<and> set (py_split (lower c)) \<noteq> {} \<longrightarrow>
      calculate_relevance_score c a = 1)"
proof -
  have disj: "calculate_relevance_score c a = 0"
    if "set (py_split (lower c)) \<inter> set (py_split (lower a)) = {}"
    using that by (simp add: calculate_relevance_score_def Let_def)
  have same: "calculate_relevance_score c a = 1"
    if "set (py_split (lower c)) = set (py_split (lower a))" "set (py_split (lower c)) \<noteq> {}"
  proof -
    have "card (set (py_split (lower a))) > 0"
      using that by (simp add: card_gt_0_iff)
    then show ?thesis
      using that by (simp add: calculate_relevance_score_def Let_def)
  qed
  show ?thesis
    using relevance_score_nonneg relevance_score_le_one disj same by blast
qed

lemma py_split_example1: "py_split (lower ''Cat dog'') = [''cat'', ''dog'']"
  by code_simp

lemma py_split_example2: "py_split (lower ''dog  CAT'') = [''dog'', ''cat'']"
  by code_simp

lemma py_split_example3: "py_split (lower ''bird'') = [''bird'']"
  by code_simp

theorem C5_relevance_bounds_witness:
  "calculate_relevance_score ''Cat dog'' ''bird'' = 0 \<and>
   calculate_relevance_score ''Cat dog'' ''dog  CAT'' = 1"
  using C5_relevance_bounds [of "''Cat dog''" "''bird''"]
        C5_relevance_bounds [of "''Cat dog''" "''dog  CAT''"]
  by (simp add: py_split_example1 py_split_example2 py_split_example3 insert_commute)

section \<open>Image context of a chunk\<close>

lemma set_collect_relevant_images:
  "set (collect_relevant_images cc as) =
     make_image_entry cc ` {a \<in> set as. success a \<and> image_relevant cc a}"
  by (induction as) auto

lemma sorted_desc_sort_key:
  "sorted_wrt (\<lambda>x y. relevance_score y \<le> relevance_score x)
     (sort_key (\<lambda>x. - relevance_score x) xs)"
proof -
  have "sorted (map (\<lambda>x. - relevance_score x) (sort_key (\<lambda>x. - relevance_score x) xs))"
    by (rule sorted_sort_key)
  then show ?thesis
    by (simp add: sorted_map sorted_wrt_iff_nth_less)
qed

text \<open>
  Claim C6 as stated fails: the analysis below is successful and its relevance score to the
  chunk \<open>zebra\<close> is positive (the word \<open>zebra\<close> is shared), but neither its image id nor
  any of its first ten words occurs in the chunk text, so it is not attached.
\<close>

theorem C6_image_context_counterexample:
  "success \<lparr>success = True, image_id = ''img1'',
            analysis = ''q1 q2 q3 q4 q5 q6 q7 q8 q9 q10 zebra'', page_number = 1\<rparr> \<and>
   0 < calculate_relevance_score (content (example_chunk 1 ''zebra''))
         ''q1 q2 q3 q4 q5 q6 q7 q8 q9 q10 zebra'' \<and>
   get_chunk_image_context (example_chunk 1 ''zebra'')
     [\<lparr>success = True, image_id = ''img1'',
       analysis = ''q1 q2 q3 q4 q5 q6 q7 q8 q9 q10 zebra'', page_number = 1\<rparr>] = []"
proof -
  have "calculate_relevance_score (content (example_chunk 1 ''zebra''))
          ''q1 q2 q3 q4 q5 q6 q7 q8 q9 q10 zebra'' = 1 / 11"
    by code_simp
  moreover have "get_chunk_image_context (example_chunk 1 ''zebra'')
     [\<lparr>success = True, image_id = ''img1'',
       analysis = ''q1 q2 q3 q4 q5 q6 q7 q8 q9 q10 zebra'', page_number = 1\<rparr>] = []"
    by code_simp
  ultimately show ?thesis by simp
qed

text \<open>
  Claim C6, amended. The image context of a chunk consists exactly of the entries of the
  successful analyses that pass the attachment test (the lower-cased image id, or one of
  the first ten lower-cased words of the analysis, occurs in the lower-cased chunk text),
  each with its relevance score to the chunk, and the list is sorted in descending order
  of relevance score.
\<close>

theorem C6_image_context_amended:
  "set (get_chunk_image_context c image_analyses) =
     make_image_entry (lower (content c)) `
       {a \<in> set image_analyses. success a \<and> image_relevant (lower (content c)) a} \<and>
   sorted_wrt (\<lambda>x y. relevance_score y \<le> relevance_score x)
     (get_chunk_image_context c image_analyses)"
  by (simp add: get_chunk_image_context_def Let_def set_collect_relevant_images
      sorted_desc_sort_key)

theorem C6_image_context_amended_witness:
  "map entry_image_id
     (get_chunk_image_context (example_chunk 1 ''Sales chart for 2020'')
        [\<lparr>success = True, image_id = ''img1'', analysis = ''A chart'', page_number = 1\<rparr>,
         \<lparr>success = False, image_id = ''img2'', analysis = ''sales chart'', page_number = 1\<rparr>,
         \<lparr>success = True, image_id = ''img3'', analysis = ''Sales chart'', page_number = 2\<rparr>])
     = [''img3'', ''img1''] \<and>
   sorted_wrt (\<lambda>x y. relevance_score y \<le> relevance_score x)
     (get_chunk_image_context (example_chunk 1 ''Sales chart for 2020'')
        [\<lparr>success = True, image_id = ''img1'', analysis = ''A chart'', page_number = 1\<rparr>,
         \<lparr>success = False, image_id = ''img2'', analysis = ''sales chart'', page_number = 1\<rparr>,
         \<lparr>success = True, image_id = ''img3'', analysis = ''Sales chart'', page_number = 2\<rparr>])"
proof -
  have "map entry_image_id
     (get_chunk_image_context (example_chunk 1 ''Sales chart for 2020'')
        [\<lparr>success = True, image_id = ''img1'', analysis = ''A chart'', page_number = 1\<rparr>,
         \<lparr>success = False, image_id = ''img2'', analysis = ''sales chart'', page_number = 1\<rparr>,
         \<lparr>success = True, image_id = ''img3'', analysis = ''Sales chart'', page_number = 2\<rparr>])
     = [''img3'', ''img1'']"
    by code_simp
  then show ?thesis
    using C6_image_context_amended [of "example_chunk 1 ''Sales chart for 2020''"
        "[\<lparr>success = True, image_id = ''img1'', analysis = ''A chart'', page_number = 1\<rparr>,
         \<lparr>success = False, image_id = ''img2'', analysis = ''sales chart'', page_number = 1\<rparr>,
         \<lparr>success = True, image_id = ''img3'', analysis = ''Sales chart'', page_number = 2\<rparr>]"]
    by blast
qed

section \<open>Merging small chunks\<close>

lemma merge_loop_acc:
  "merge_loop m acc cur rest = acc @ merge_loop m [] cur rest"
proof (induction rest arbitrary: acc cur)
  case Nil
  then show ?case by simp
next
  case (Cons n rest)
  show ?case
  proof (cases "int (length (content cur)) < m")
    case True
    then show ?thesis using Cons.IH [of acc "merge_into cur n"] by simp
  next
    case False
    then show ?thesis
      using Cons.IH [of "acc @ [cur]" n] Cons.IH [of "[cur]" n] by simp
  qed
qed

lemma merge_loop_step:
  "merge_loop m [] cur (n # rest) =
     (if int (length (content cur)) < m then merge_loop m [] (merge_into cur n) rest
      else cur # merge_loop m [] n rest)"
  using merge_loop_acc [of m "[cur]" n rest] by simp

lemma merge_loop_nonempty: "merge_loop m [] cur rest \<noteq> []"
  by (induction rest arbitrary: cur) (simp_all add: merge_loop_step del: merge_loop.simps(2))

lemma merge_loop_butlast:
  "list_all (\<lambda>c. m \<le> int (length (content c))) (butlast (merge_loop m [] cur rest))"
  by (induction rest arbitrary: cur)
     (simp_all add: merge_loop_step merge_loop_nonempty del: merge_loop.simps(2))

lemma suffix_merge_into: "suffix (content n) (content (merge_into cur n))"
  by (simp add: merge_into_def suffix_def)

lemma merge_loop_last_suffix_gen:
  "suffix s (content cur) \<Longrightarrow>
   suffix (if rest = [] then s else content (last rest))
     (content (last (merge_loop m [] cur rest)))"
proof (induction rest arbitrary: cur s)
  case Nil
  then show ?case by simp
next
  case (Cons n rest)
  show ?case
  proof (cases "int (length (content cur)) < m")
    case True
    then show ?thesis
      using Cons.IH [of "content n" "merge_into cur n"] suffix_merge_into [of n cur]
      by (simp add: merge_loop_step del: merge_loop.simps(2) split: if_splits)
  next
    case False
    then show ?thesis
      using Cons.IH [of "content n" n]
      by (simp add: merge_loop_step merge_loop_nonempty del: merge_loop.simps(2) split: if_splits)
  qed
qed

lemma merge_loop_last_suffix:
  "suffix (content (last (cur # rest))) (content (last (merge_loop m [] cur rest)))"
  using merge_loop_last_suffix_gen [of "content cur" cur rest m] by (simp split: if_splits)

lemma merge_loop_no_merge:
  "list_all (\<lambda>c. m \<le> int (length (content c))) (butlast (cur # rest)) \<Longrightarrow>
   merge_loop m [] cur rest = cur # rest"
  by (induction rest arbitrary: cur) (simp_all add: merge_loop_step del: merge_loop.simps(2))

lemma map_content_renumber: "map content (renumber cs) = map content cs"
  by (simp add: renumber_def map_idI enumerate_eq_zip map_snd_zip case_prod_beta comp_def
      flip: map_map [unfolded comp_def])

lemma length_renumber: "length (renumber cs) = length cs"
  by (simp add: renumber_def)

lemma merge_loop_snoc:
  "merge_loop m [] cur (rest @ [c]) =
     (let out = merge_loop m [] cur rest
      in if int (length (content (last out))) < m
         then butlast out @ [merge_into (last out) c]
         else out @ [c])"
proof (induction rest arbitrary: cur)
  case Nil
  show ?case by (simp add: merge_loop_step del: merge_loop.simps(2))
next
  case (Cons n rest)
  show ?case
  proof (cases "int (length (content cur)) < m")
    case True
    then show ?thesis
      using Cons.IH [of "merge_into cur n"]
      by (simp add: merge_loop_step del: merge_loop.simps(2))
  next
    case False
    then show ?thesis
      using Cons.IH [of n] merge_loop_nonempty [of m n rest]
      by (simp add: merge_loop_step Let_def butlast_append del: merge_loop.simps(2))
  qed
qed

lemma map_content_merge_small_chunks_snoc:
  assumes "pre \<noteq> []"
  shows "map content (merge_small_chunks (pre @ [c]) m) =
     (let out = map content (merge_small_chunks pre m)
      in if int (length (last out)) < m
         then butlast out @ [last out @ [CHR 0x0A, CHR 0x0A] @ content c]
         else out @ [content c])"
proof -
  obtain first others where pre: "pre = first # others"
    using assms by (cases pre) auto
  let ?out = "merge_loop m [] first others"
  have ne: "?out \<noteq> []" by (rule merge_loop_nonempty)
  have l: "last (map content ?out) = content (last ?out)"
    using ne by (simp add: last_map)
  have b: "butlast (map content ?out) = map content (butlast ?out)"
    by (simp add: map_butlast)
  have m: "content (merge_into (last ?out) c) = content (last ?out) @ [CHR 0x0A, CHR 0x0A] @ content c"
    by (simp add: merge_into_def)
  have "map content (merge_small_chunks (pre @ [c]) m) =
        map content (merge_loop m [] first (others @ [c]))"
    by (simp add: merge_small_chunks_def pre map_content_renumber)
  also have "\<dots> = (if int (length (content (last ?out))) < m
         then map content (butlast ?out) @ [content (merge_into (last ?out) c)]
         else map content ?out @ [content c])"
    by (simp add: merge_loop_snoc Let_def)
  finally show ?thesis
    by (simp add: merge_small_chunks_def pre map_content_renumber Let_def l b m)
qed

text \<open>
  Claim C10 as stated fails: the trailing chunk \<open>xy\<close>, shorter than the minimum 3, is
  not returned as it is but merged into the short chunk before it.
\<close>

theorem C10_merge_small_chunks_counterexample:
  "map content (merge_small_chunks [example_chunk 1 ''ab'', example_chunk 2 ''xy''] 3) =
     [''ab'' @ [CHR 0x0A, CHR 0x0A] @ ''xy'']"
  by code_simp

text \<open>
  Claim C10, amended. For a non-empty chunk list and any minimum size, \<open>merge_small_chunks\<close>
  returns a non-empty list in which every chunk but the last has at least the minimum
  content length. The last input chunk is never dropped: its text ends the text of the
  last output chunk. It is returned with its text as it is, whatever its length, exactly
  when the chunk accumulated before it has reached the minimum size, and is otherwise
  appended, after a blank line, to that accumulated chunk; in particular, when no chunk
  before the last is short, every chunk keeps its text.
\<close>

theorem C10_merge_small_chunks_amended:
  "chunks \<noteq> [] \<Longrightarrow>
   merge_small_chunks chunks m \<noteq> [] \<and>
   (\<forall>c \<in> set (butlast (merge_small_chunks chunks m)). m \<le> int (length (content c))) \<and>
   suffix (content (last chunks)) (content (last (merge_small_chunks chunks m))) \<and>
   ((\<forall>c \<in> set (butlast chunks). m \<le> int (length (content c))) \<longrightarrow>
      map content (merge_small_chunks chunks m) = map content chunks) \<and>
   (chunks = pre @ [c] \<and> pre \<noteq> [] \<longrightarrow>
      map content (merge_small_chunks chunks m) =
        (let out = map content (merge_small_chunks pre m)
         in if int (length (last out)) < m
            then butlast out @ [last out @ [CHR 0x0A, CHR 0x0A] @ content c]
            else out @ [content c]))"
proof -
  assume "chunks \<noteq> []"
  then obtain first others where ch: "chunks = first # others"
    by (cases chunks) auto
  let ?out = "merge_loop m [] first others"
  have res: "merge_small_chunks chunks m = renumber ?out"
    by (simp add: merge_small_chunks_def ch)
  have ne: "renumber ?out \<noteq> []"
    using merge_loop_nonempty [of m first others] length_renumber [of ?out]
    by (metis length_0_conv)
  have "list_all (\<lambda>n. m \<le> int (length n)) (butlast (map content ?out))"
    using merge_loop_butlast [of m first others] by (simp add: list_all_iff flip: map_butlast)
  then have "list_all (\<lambda>n. m \<le> int (length n)) (butlast (map content (renumber ?out)))"
    by (simp only: map_content_renumber)
  then have big: "\<forall>c \<in> set (butlast (renumber ?out)). m \<le> int (length (content c))"
    by (simp add: list_all_iff flip: map_butlast)
  have "content (last (renumber ?out)) = last (map content (renumber ?out))"
    using ne by (simp add: last_map)
  also have "\<dots> = content (last ?out)"
    using merge_loop_nonempty [of m first others]
    by (simp only: map_content_renumber) (simp add: last_map)
  finally have suf: "suffix (content (last chunks)) (content (last (renumber ?out)))"
    using merge_loop_last_suffix [of first others m] by (simp only: ch)
  have same: "map content (renumber ?out) = map content chunks"
    if "\<forall>c \<in> set (butlast chunks). m \<le> int (length (content c))"
  proof -
    have "?out = first # others"
      using that merge_loop_no_merge [of m first others] by (simp only: ch list_all_iff)
    then show ?thesis by (simp only: map_content_renumber ch)
  qed
  have snoc: "map content (merge_small_chunks chunks m) =
        (let out = map content (merge_small_chunks pre m)
         in if int (length (last out)) < m
            then butlast out @ [last out @ [CHR 0x0A, CHR 0x0A] @ content c]
            else out @ [content c])"
    if "chunks = pre @ [c] \<and> pre \<noteq> []"
    using that map_content_merge_small_chunks_snoc [of pre c m] by simp
  have first4: "merge_small_chunks chunks m \<noteq> [] \<and>
   (\<forall>c \<in> set (butlast (merge_small_chunks chunks m)). m \<le> int (length (content c))) \<and>
   suffix (content (last chunks)) (content (last (merge_small_chunks chunks m))) \<and>
   ((\<forall>c \<in> set (butlast chunks). m \<le> int (length (content c))) \<longrightarrow>
      map content (merge_small_chunks chunks m) = map content chunks)"
    using ne big suf same by (simp only: res) blast
  show ?thesis
    using first4 snoc by blast
qed

theorem C10_merge_small_chunks_amended_witness:
  "map content (merge_small_chunks
      [example_chunk 1 ''ab'', example_chunk 2 ''abcdefgh'', example_chunk 3 ''xy''] 3)
     = [''ab'' @ [CHR 0x0A, CHR 0x0A] @ ''abcdefgh'', ''xy''] \<and>
   map content (merge_small_chunks [example_chunk 1 ''abcdefgh'', example_chunk 2 ''xy''] 3)
     = [''abcdefgh'', ''xy''] \<and>
   merge_small_chunks
      [example_chunk 1 ''ab'', example_chunk 2 ''abcdefgh'', example_chunk 3 ''xy''] 3 \<noteq> []"
proof -
  have pre: "map content (merge_small_chunks [example_chunk 1 ''ab'', example_chunk 2 ''abcdefgh''] 3)
     = [''ab'' @ [CHR 0x0A, CHR 0x0A] @ ''abcdefgh'']"
    by code_simp
  have "map content (merge_small_chunks
      ([example_chunk 1 ''ab'', example_chunk 2 ''abcdefgh''] @ [example_chunk 3 ''xy'']) 3)
     = (let out = map content
                    (merge_small_chunks [example_chunk 1 ''ab'', example_chunk 2 ''abcdefgh''] 3)
        in if int (length (last out)) < 3
           then butlast out @ [last out @ [CHR 0x0A, CHR 0x0A] @ content (example_chunk 3 ''xy'')]
           else out @ [content (example_chunk 3 ''xy'')])"
    using C10_merge_small_chunks_amended [of
        "[example_chunk 1 ''ab'', example_chunk 2 ''abcdefgh''] @ [example_chunk 3 ''xy'']" 3
        "[example_chunk 1 ''ab'', example_chunk 2 ''abcdefgh'']" "example_chunk 3 ''xy''"]
    by blast
  then have a: "map content (merge_small_chunks
      [example_chunk 1 ''ab'', example_chunk 2 ''abcdefgh'', example_chunk 3 ''xy''] 3)
     = [''ab'' @ [CHR 0x0A, CHR 0x0A] @ ''abcdefgh'', ''xy'']"
    by (simp only: pre append_Cons append_Nil) (simp add: example_chunk_def)
  have b: "\<forall>c \<in> set (butlast [example_chunk 1 ''abcdefgh'', example_chunk 2 ''xy'']).
             3 \<le> int (length (content c))"
    by (simp add: example_chunk_def)
  have "map content (merge_small_chunks [example_chunk 1 ''abcdefgh'', example_chunk 2 ''xy''] 3)
          = map content [example_chunk 1 ''abcdefgh'', example_chunk 2 ''xy'']"
    using b C10_merge_small_chunks_amended [of
        "[example_chunk 1 ''abcdefgh'', example_chunk 2 ''xy'']" 3]
    by blast
  then have c: "map content
      (merge_small_chunks [example_chunk 1 ''abcdefgh'', example_chunk 2 ''xy''] 3)
        = [''abcdefgh'', ''xy'']"
    by (simp add: example_chunk_def)
  have d: "merge_small_chunks
      [example_chunk 1 ''ab'', example_chunk 2 ''abcdefgh'', example_chunk 3 ''xy''] 3 \<noteq> []"
    using C10_merge_small_chunks_amended [of "[example_chunk 1 ''ab'', example_chunk 2 ''abcdefgh'',
         example_chunk 3 ''xy'']" 3]
    by blast
  show ?thesis
    using a c d by blast
qed

section \<open>Cardinality of the embedding batcher\<close>



















section \<open>Chunk indices\<close>

lemma map_index_text_chunk_dicts:
  "map doc_chunk_index (text_chunk_dicts ts) = [0..<length ts]"
  by (simp add: text_chunk_dicts_def enumerate_eq_zip case_prod_beta comp_def
      flip: map_map [unfolded comp_def])

lemma length_text_chunk_dicts: "length (text_chunk_dicts ts) = length ts"
  by (simp add: text_chunk_dicts_def)

lemma map_index_append_visual_chunks:
  "map doc_chunk_index (append_visual_chunks chunks i as) =
     map doc_chunk_index chunks @ map (\<lambda>j. length chunks + i + 2 * j) [0..<length as]"
proof (induction as arbitrary: chunks i)
  case Nil
  then show ?case by simp
next
  case (Cons a as)
  have "[0..<length (a # as)] = 0 # map Suc [0..<length as]"
    by (simp add: upt_conv_Cons map_Suc_upt del: upt_Suc)
  then show ?case
    using Cons.IH by (simp add: comp_def del: upt_Suc)
qed

lemma length_append_visual_chunks:
  "length (append_visual_chunks chunks i as) = length chunks + length as"
  by (induction as arbitrary: chunks i) simp_all

lemma map_fst_enumerate: "map fst (enumerate n xs) = [n..<n + length xs]"
  by (simp add: enumerate_eq_zip)

lemma map_index_renumber: "map chunk_index (renumber cs) = [1..<length cs + 1]"
proof -
  have "map chunk_index (renumber cs) = map (\<lambda>p. Suc (fst p)) (enumerate 0 cs)"
    by (simp add: renumber_def case_prod_beta)
  also have "\<dots> = map Suc (map fst (enumerate 0 cs))"
    by (simp only: map_map comp_def)
  also have "\<dots> = [1..<length cs + 1]"
    by (simp only: map_fst_enumerate map_Suc_upt) simp
  finally show ?thesis .
qed

lemma map_index_chunk_text:
  "map chunk_index (chunk_text sp t md) = [1..<length (chunk_text sp t md) + 1]"
proof (cases "sp t")
  case None
  then show ?thesis by (simp add: chunk_text_def)
next
  case (Some pieces)
  have "map chunk_index (chunk_text sp t md) = map (\<lambda>p. Suc (fst p)) (enumerate 0 pieces)"
    using Some by (simp add: chunk_text_def case_prod_beta)
  also have "\<dots> = map Suc (map fst (enumerate 0 pieces))"
    by (simp only: map_map comp_def)
  also have "\<dots> = [1..<length pieces + 1]"
    by (simp only: map_fst_enumerate map_Suc_upt) simp
  finally show ?thesis
    using Some by (simp add: chunk_text_def)
qed

lemma length_merge_small_chunks_index:
  "map chunk_index (merge_small_chunks cs m) = [1..<length (merge_small_chunks cs m) + 1]"
  by (cases cs) (simp_all add: merge_small_chunks_def map_index_renumber length_renumber)

text \<open>
  Claim C3 as stated fails. \<open>merge_small_chunks\<close> (as \<open>chunk_text\<close>) numbers its
  chunks from 1, not from 0; and \<open>chunk_document\<close>, given two image analyses, numbers the
  second visual chunk 3 after 0 and 1.
\<close>

theorem C3_chunk_index_counterexample:
  "map chunk_index
     (merge_small_chunks [example_chunk 1 ''abcdefgh'', example_chunk 2 ''ijklmnop''] 3) = [1, 2] \<and>
   map doc_chunk_index
     (chunk_document
        \<lparr>service_chunk_size = 1000, service_chunk_overlap = 200, splitter = None\<rparr>
        ''hello world''
        [\<lparr>success = True, image_id = ''img1'', analysis = ''a chart'', page_number = 1\<rparr>,
         \<lparr>success = True, image_id = ''img2'', analysis = ''a table'', page_number = 1\<rparr>])
     = [0, 1, 3]"
  by code_simp

text \<open>
  Claim C3, amended. The text chunks of \<open>chunk_document\<close> carry the chunk indices
  0..T-1, and with at most one image analysis its whole chunk sequence carries 0..K-1;
  the chunks of \<open>ContentChunker.chunk_text\<close> and of \<open>merge_small_chunks\<close> carry the
  contiguous indices 1..K.
\<close>

theorem C3_chunk_index_amended:
  "take (length (chunk_document svc text [])) (map doc_chunk_index (chunk_document svc text va))
      = [0..<length (chunk_document svc text [])] \<and>
   (length va \<le> 1 \<longrightarrow>
      map doc_chunk_index (chunk_document svc text va) = [0..<length (chunk_document svc text va)]) \<and>
   map chunk_index (chunk_text sp t md) = [1..<length (chunk_text sp t md) + 1] \<and>
   map chunk_index (merge_small_chunks cs m) = [1..<length (merge_small_chunks cs m) + 1]"
proof -
  let ?ts = "case splitter svc of Some split_text \<Rightarrow> split_text text
             | None \<Rightarrow> basic_text_split svc text"
  have a: "map doc_chunk_index (chunk_document svc text va) =
           [0..<length ?ts] @ map (\<lambda>j. length ?ts + 2 * j) [0..<length va]" for va
    by (simp add: chunk_document_def Let_def map_index_append_visual_chunks
        map_index_text_chunk_dicts length_text_chunk_dicts)
  have l0: "length (chunk_document svc text []) = length ?ts"
    by (simp add: chunk_document_def Let_def length_text_chunk_dicts)
  have l: "length (chunk_document svc text va) = length ?ts + length va" for va
    by (simp add: chunk_document_def Let_def length_append_visual_chunks length_text_chunk_dicts)
  have one: "map doc_chunk_index (chunk_document svc text va) =
             [0..<length (chunk_document svc text va)]" if "length va \<le> 1"
  proof (cases va)
    case Nil
    then show ?thesis by (simp add: a l)
  next
    case (Cons v vs)
    then have "vs = []" using that by simp
    then show ?thesis using Cons by (simp add: a l)
  qed
  show ?thesis
    using one by (simp add: a l0 map_index_chunk_text length_merge_small_chunks_index)
qed


theorem C3_chunk_index_amended_witness:
  "map doc_chunk_index
     (chunk_document
        \<lparr>service_chunk_size = 1000, service_chunk_overlap = 200, splitter = None\<rparr>
        ''hello world''
        [\<lparr>success = True, image_id = ''img1'', analysis = ''a chart'', page_number = 1\<rparr>])
     = [0, 1]"
proof -
  have "length (chunk_document
        \<lparr>service_chunk_size = 1000, service_chunk_overlap = 200, splitter = None\<rparr>
        ''hello world''
        [\<lparr>success = True, image_id = ''img1'', analysis = ''a chart'', page_number = 1\<rparr>])
     = 2"
    by code_simp
  moreover have "[0..<(2::nat)] = [0, 1]"
    by (simp add: upt_conv_Cons)
  ultimately show ?thesis
    using C3_chunk_index_amended [of
        "\<lparr>service_chunk_size = 1000, service_chunk_overlap = 200, splitter = None\<rparr>"
        "''hello world''"
        "[\<lparr>success = True, image_id = ''img1'', analysis = ''a chart'', page_number = 1\<rparr>]"]
    by simp
qed

section \<open>Proximity clustering\<close>

lemma near_eq_close: "near thr p q = are_bboxes_close (get_rect p) (get_rect q) thr"
  by (auto simp: near_def are_bboxes_close_def center_distance_def center_def Let_def
      split: option.splits prod.splits)

lemma inner_loop_result:
  "distinct (map fst xs) \<Longrightarrow>
   inner_loop b thr xs (g, U) =
     (g @ map snd (filter (\<lambda>(j, d). j \<notin> U \<and> are_bboxes_close b (get_rect d) thr) xs),
      U \<union> fst ` set (filter (\<lambda>(j, d). j \<notin> U \<and> are_bboxes_close b (get_rect d) thr) xs))"
proof (induction xs arbitrary: g U)
  case Nil
  then show ?case by simp
next
  case (Cons x xs)
  obtain j d where x: "x = (j, d)" by (cases x)
  have dist: "distinct (map fst xs)" and fresh: "j \<notin> fst ` set xs"
    using Cons.prems by (auto simp: x)
  show ?case
  proof (cases "j \<notin> U \<and> are_bboxes_close b (get_rect d) thr")
    case True
    have same: "filter (\<lambda>(k, e). k \<notin> insert j U \<and> are_bboxes_close b (get_rect e) thr) xs =
                filter (\<lambda>(k, e). k \<notin> U \<and> are_bboxes_close b (get_rect e) thr) xs"
      using fresh by (intro filter_cong) (auto simp: image_iff)
    have ih: "inner_loop b thr xs (g @ [d], insert j U) =
      ((g @ [d]) @ map snd (filter (\<lambda>(k, e). k \<notin> U \<and> are_bboxes_close b (get_rect e) thr) xs),
       insert j U \<union> fst ` set (filter (\<lambda>(k, e). k \<notin> U \<and> are_bboxes_close b (get_rect e) thr) xs))"
      using Cons.IH [OF dist, of "g @ [d]" "insert j U"] unfolding same .
    show ?thesis
      using True by (simp add: x ih)
  next
    case False
    then show ?thesis
      using Cons.IH [OF dist, of g U] by (auto simp: x)
  qed
qed


lemma distinct_fst_enumerate: "distinct (map fst (enumerate n xs))"
  by (simp add: enumerate_eq_zip)

lemma outer_loop_result:
  "enumerate 0 ds = pre @ xs \<Longrightarrow> fst ` set pre \<subseteq> U \<Longrightarrow>
   fst (outer_loop ds thr xs (G, U)) =
     G @ anchor_groups thr (map snd (filter (\<lambda>(j, e). j \<notin> U) xs))"
proof (induction xs arbitrary: pre G U)
  case Nil
  then show ?case by simp
next
  case (Cons x rest)
  obtain i d where x: "x = (i, d)" by (cases x)
  have split: "enumerate 0 ds = (pre @ [(i, d)]) @ rest"
    using Cons.prems(1) by (simp add: x)
  have dist: "distinct (map fst (pre @ (i, d) # rest))"
    using distinct_fst_enumerate [of 0 ds] Cons.prems(1) by (simp add: x)
  then have fresh: "i \<notin> fst ` set rest" and drest: "distinct (map fst rest)"
    by auto
  show ?case
  proof (cases "i \<in> U")
    case True
    then have "fst ` set (pre @ [(i, d)]) \<subseteq> U"
      using Cons.prems(2) by simp
    then show ?thesis
      using Cons.IH [OF split, of U G] True by (simp add: x)
  next
    case False
    let ?Q = "\<lambda>(j, e). j \<notin> U \<and> are_bboxes_close (get_rect d) (get_rect e) thr"
    let ?P = "\<lambda>(j, e). j \<notin> insert i U \<and> are_bboxes_close (get_rect d) (get_rect e) thr"
    let ?U' = "insert i U \<union> fst ` set (filter ?Q rest)"
    let ?grp = "d # map snd (filter ?Q rest)"
    have pre_none: "filter ?P pre = []"
      using Cons.prems(2) by (auto simp: filter_empty_conv)
    have rest_same: "filter ?P rest = filter ?Q rest"
      using fresh by (intro filter_cong) (auto simp: image_iff)
    have head: "filter ?P ((i, d) # rest) = filter ?P rest"
      by simp
    have all: "filter ?P (enumerate 0 ds) = filter ?Q rest"
      by (simp only: Cons.prems(1) x filter_append pre_none head rest_same append_Nil)
    have inner: "inner_loop (get_rect d) thr (enumerate 0 ds) ([d], insert i U) = (?grp, ?U')"
      using inner_loop_result [OF distinct_fst_enumerate, of "get_rect d" thr 0 ds "[d]" "insert i U"]
      unfolding all by simp
    have sub: "fst ` set (pre @ [(i, d)]) \<subseteq> ?U'"
      using Cons.prems(2) by auto
    have ih: "fst (outer_loop ds thr rest (G @ [?grp], ?U')) =
              (G @ [?grp]) @ anchor_groups thr (map snd (filter (\<lambda>(j, e). j \<notin> ?U') rest))"
      by (rule Cons.IH [OF split sub])
    have unique: "e' = e" if "(j, e) \<in> set rest" "(j, e') \<in> set rest" for j e e'
      using drest that by (meson eq_key_imp_eq_value)
    have remaining: "filter (\<lambda>(j, e). j \<notin> ?U') rest =
                     filter (\<lambda>(j, e). j \<notin> U \<and> \<not> near thr d e) rest"
    proof (intro filter_cong refl)
      fix y assume y: "y \<in> set rest"
      obtain j e where ye: "y = (j, e)" by (cases y)
      have "j \<noteq> i" using fresh y ye by force
      moreover have "j \<in> fst ` set (filter ?Q rest) \<longleftrightarrow>
                     j \<notin> U \<and> are_bboxes_close (get_rect d) (get_rect e) thr"
        using y ye unique by (auto simp: image_iff) 
      ultimately show "(case y of (j, e) \<Rightarrow> j \<notin> ?U') =
                       (case y of (j, e) \<Rightarrow> j \<notin> U \<and> \<not> near thr d e)"
        by (auto simp: ye near_eq_close)
    qed
    have grp_eq: "map snd (filter ?Q rest) =
                  filter (near thr d) (map snd (filter (\<lambda>(j, e). j \<notin> U) rest))"
      by (simp add: filter_map comp_def near_eq_close split_def conj_commute)
    have rem_eq: "map snd (filter (\<lambda>(j, e). j \<notin> U \<and> \<not> near thr d e) rest) =
                  filter (\<lambda>q. \<not> near thr d q) (map snd (filter (\<lambda>(j, e). j \<notin> U) rest))"
      by (simp add: filter_map comp_def split_def conj_commute)
    have "fst (outer_loop ds thr ((i, d) # rest) (G, U)) =
          fst (outer_loop ds thr rest (G @ [?grp], ?U'))"
      using False by (simp add: inner)
    also have "\<dots> = (G @ [?grp]) @
        anchor_groups thr (filter (\<lambda>q. \<not> near thr d q) (map snd (filter (\<lambda>(j, e). j \<notin> U) rest)))"
      by (simp only: ih remaining rem_eq)
    also have "\<dots> = G @ anchor_groups thr (d # map snd (filter (\<lambda>(j, e). j \<notin> U) rest))"
      by (simp add: grp_eq)
    finally show ?thesis
      using False by (simp add: x)
  qed
qed

lemma group_drawings_refines:
  "group_drawings_by_proximity ds thr = anchor_groups thr ds"
proof (cases "ds = []")
  case True
  then show ?thesis by (simp add: group_drawings_by_proximity_def)
next
  case False
  have "map snd (filter (\<lambda>(j, e). j \<notin> {}) (enumerate 0 ds)) = ds"
    by (simp add: enumerate_eq_zip)
  then show ?thesis
    using False outer_loop_result [of ds "[]" "enumerate 0 ds" "{}" thr "[]"]
    by (simp add: group_drawings_by_proximity_def)
qed


lemma elements_loop_sound:
  "e \<in> set (elements_loop render temp_dir page_num filename xs acc) \<Longrightarrow>
   e \<in> set acc \<or>
   (\<exists>k g. (k, g) \<in> set xs \<and> ve_image_index e = k + 1 \<and> ve_bbox e = get_drawings_bbox g \<and>
      20 \<le> rect_width (get_drawings_bbox g) \<and> 20 \<le> rect_height (get_drawings_bbox g))"
proof (induction xs arbitrary: acc)
  case Nil
  then show ?case by simp
next
  case (Cons x xs)
  obtain k g where x: "x = (k, g)" by (cases x)
  let ?loop = "elements_loop render temp_dir page_num filename"
  let ?bbox = "get_drawings_bbox g"
  let ?R = "\<lambda>ys. \<exists>k g. (k, g) \<in> set ys \<and> ve_image_index e = k + 1 \<and>
      ve_bbox e = get_drawings_bbox g \<and>
      20 \<le> rect_width (get_drawings_bbox g) \<and> 20 \<le> rect_height (get_drawings_bbox g)"
  have skip: "e \<in> set acc \<or> ?R (x # xs)" if "e \<in> set (?loop xs acc)"
    using Cons.IH [OF that] by auto
  show ?case
  proof (cases "rect_width ?bbox < 20 \<or> rect_height ?bbox < 20")
    case True
    then have "?loop (x # xs) acc = ?loop xs acc" by (simp add: x Let_def)
    then show ?thesis using Cons.prems skip by simp
  next
    case big: False
    show ?thesis
    proof (cases "render ?bbox")
      case None
      then have "?loop (x # xs) acc = ?loop xs acc" using big by (simp add: x Let_def)
      then show ?thesis using Cons.prems skip by simp
    next
      case (Some img)
      show ?thesis
      proof (cases "img_size img < 100")
        case True
        then have "?loop (x # xs) acc = ?loop xs acc" using big Some by (simp add: x Let_def)
        then show ?thesis using Cons.prems skip by simp
      next
        case False
        then obtain el where step: "?loop (x # xs) acc = ?loop xs (acc @ [el])"
          and el: "ve_image_index el = k + 1" "ve_bbox el = ?bbox"
          using big Some by (simp add: x Let_def)
        from Cons.prems have "e \<in> set (?loop xs (acc @ [el]))" by (simp only: step)
        from Cons.IH [OF this] have "e \<in> set acc \<or> e = el \<or> ?R xs" by auto
        moreover have "?R (x # xs)" if "e = el"
          using that el big by (intro exI [of _ k] exI [of _ g]) (simp add: x)
        moreover have "?R (x # xs)" if "?R xs"
          using that by auto
        ultimately show ?thesis by blast
      qed
    qed
  qed
qed

text \<open>
  Claim C7. Every visual element the extractor returns for a page has a bounding box (the
  union box of its drawing group) of width and height at least 20, the minimum drawing
  size of the extractor; a drawing group whose union box has width or height below 20
  gives no element.
\<close>

theorem C7_noise_filtering:
  "(\<forall>e \<in> set (extract_drawing_elements render temp_dir ds page_num filename).
      20 \<le> rect_width (ve_bbox e) \<and> 20 \<le> rect_height (ve_bbox e)) \<and>
   (\<forall>k < length (group_drawings_by_proximity ds 50).
      rect_width (get_drawings_bbox (group_drawings_by_proximity ds 50 ! k)) < 20 \<or>
      rect_height (get_drawings_bbox (group_drawings_by_proximity ds 50 ! k)) < 20 \<longrightarrow>
      k + 1 \<notin> ve_image_index ` set (extract_drawing_elements render temp_dir ds page_num filename))"
proof -
  let ?G = "group_drawings_by_proximity ds 50"
  have sound: "\<exists>k < length ?G. ve_image_index e = k + 1 \<and> ve_bbox e = get_drawings_bbox (?G ! k) \<and>
      20 \<le> rect_width (get_drawings_bbox (?G ! k)) \<and> 20 \<le> rect_height (get_drawings_bbox (?G ! k))"
    if "e \<in> set (extract_drawing_elements render temp_dir ds page_num filename)" for e
  proof -
    from that have "e \<in> set (elements_loop render temp_dir page_num filename (enumerate 0 ?G) [])"
      by (simp add: extract_drawing_elements_def split: if_splits)
    from elements_loop_sound [OF this] show ?thesis
      by (auto simp: in_set_enumerate_eq)
  qed
  show ?thesis
  proof (intro conjI ballI allI impI)
    fix e assume "e \<in> set (extract_drawing_elements render temp_dir ds page_num filename)"
    from sound [OF this] show "20 \<le> rect_width (ve_bbox e)" "20 \<le> rect_height (ve_bbox e)"
      by auto
  next
    fix k
    assume k: "k < length ?G"
      and small: "rect_width (get_drawings_bbox (?G ! k)) < 20 \<or>
                  rect_height (get_drawings_bbox (?G ! k)) < 20"
    show "k + 1 \<notin> ve_image_index ` set (extract_drawing_elements render temp_dir ds page_num filename)"
    proof
      assume "k + 1 \<in> ve_image_index ` set (extract_drawing_elements render temp_dir ds page_num filename)"
      then obtain e where "e \<in> set (extract_drawing_elements render temp_dir ds page_num filename)"
        and "ve_image_index e = k + 1" by auto
      with sound [of e] small show False by auto
    qed
  qed
qed

lemma sqrt_less_iff: "0 \<le> s \<Longrightarrow> sqrt s < t \<longleftrightarrow> 0 < t \<and> s < t\<^sup>2"
proof (cases "0 < t")
  case True
  assume "0 \<le> s"
  have "sqrt s < t \<longleftrightarrow> sqrt s < sqrt (t\<^sup>2)" using True by simp
  also have "\<dots> \<longleftrightarrow> s < t\<^sup>2" by (rule real_sqrt_less_iff)
  finally show ?thesis using True by simp
next
  case False
  assume "0 \<le> s"
  then have "0 \<le> sqrt s" by simp
  then have "\<not> sqrt s < t" using False by linarith
  then show ?thesis using False by simp
qed

lemma are_bboxes_close_Some:
  "are_bboxes_close (Some (a0, a1, a2, a3)) (Some (b0, b1, b2, b3)) thr \<longleftrightarrow>
     0 < thr \<and> ((a0 + a2) / 2 - (b0 + b2) / 2)\<^sup>2 + ((a1 + a3) / 2 - (b1 + b3) / 2)\<^sup>2 < thr\<^sup>2"
  by (simp add: are_bboxes_close_def Let_def sqrt_less_iff)





lemma near_Some:
  "near thr \<lparr>seqno = n, rect = Rect a0 a1 a2 a3\<rparr> \<lparr>seqno = m, rect = Rect b0 b1 b2 b3\<rparr> \<longleftrightarrow>
     0 < thr \<and> ((a0 + a2) / 2 - (b0 + b2) / 2)\<^sup>2 + ((a1 + a3) / 2 - (b1 + b3) / 2)\<^sup>2 < thr\<^sup>2"
  by (simp add: near_eq_close get_rect_def are_bboxes_close_Some)

lemma near_Falsy: "\<not> near thr \<lparr>seqno = n, rect = Falsy\<rparr> q" "\<not> near thr p \<lparr>seqno = n, rect = Falsy\<rparr>"
  by (simp_all add: near_def get_rect_def split: option.splits)

lemma group_three:
  assumes "get_rect a = Some ra" "get_rect b = Some rb" "get_rect c = Some rc"
    and "center_distance ra rb = 10" "center_distance ra rc = 500"
  shows "group_drawings_by_proximity [a, b, c] 50 = [[a, b], [c]]"
proof -
  have "near 50 a b" "\<not> near 50 a c"
    using assms by (simp_all add: near_def)
  then show ?thesis
    by (simp add: group_drawings_refines)
qed

lemma bbox_two:
  assumes "get_rect a = Some (a0, a1, a2, a3)" "get_rect b = Some (b0, b1, b2, b3)"
  shows "get_drawings_bbox [a, b] = Box (min a0 b0) (min a1 b1) (max a2 b2) (max a3 b3)"
  using assms by (simp add: get_drawings_bbox_def)

lemma center_distance_example_10: "center_distance (0, 0, 10, 10) (10, 0, 20, 10) = 10"
proof -
  have "sqrt ((10::real)\<^sup>2) = 10" by simp
  then show ?thesis by (simp add: center_distance_def center_def)
qed

lemma center_distance_example_500: "center_distance (0, 0, 10, 10) (500, 0, 510, 10) = 500"
proof -
  have "sqrt ((500::real)\<^sup>2) = 500" by simp
  then show ?thesis by (simp add: center_distance_def center_def)
qed

theorem C7_noise_filtering_witness:
  "Suc 0 \<notin> ve_image_index ` set (extract_drawing_elements
     (\<lambda>b. Some \<lparr>img_size = 500, img_width = 200, img_height = 200, img_hash = ''h''\<rparr>)
     ''temp_images''
     [\<lparr>seqno = 0, rect = Rect 0 0 100 5\<rparr>, \<lparr>seqno = 1, rect = Rect 200 200 300 300\<rparr>]
     0 ''doc'') \<and>
   map ve_image_index (extract_drawing_elements
     (\<lambda>b. Some \<lparr>img_size = 500, img_width = 200, img_height = 200, img_hash = ''h''\<rparr>)
     ''temp_images''
     [\<lparr>seqno = 0, rect = Rect 0 0 100 5\<rparr>, \<lparr>seqno = 1, rect = Rect 200 200 300 300\<rparr>]
     0 ''doc'') = [2]"
proof -
  let ?ds = "[\<lparr>seqno = 0, rect = Rect 0 0 100 5\<rparr>, \<lparr>seqno = 1, rect = Rect 200 200 300 300\<rparr>]"
  have g: "group_drawings_by_proximity ?ds 50 =
             [[\<lparr>seqno = 0, rect = Rect 0 0 100 5\<rparr>], [\<lparr>seqno = 1, rect = Rect 200 200 300 300\<rparr>]]"
    by (simp add: group_drawings_refines near_Some power2_eq_square)
  have small: "rect_height (get_drawings_bbox (group_drawings_by_proximity ?ds 50 ! 0)) < 20"
    by (simp only: g nth_Cons_0) (simp add: get_drawings_bbox_def get_rect_def)
  have len: "0 < length (group_drawings_by_proximity ?ds 50)"
    by (simp only: g) simp
  have a: "Suc 0 \<notin> ve_image_index ` set (extract_drawing_elements
     (\<lambda>b. Some \<lparr>img_size = 500, img_width = 200, img_height = 200, img_hash = ''h''\<rparr>)
     ''temp_images'' ?ds 0 ''doc'')"
    using C7_noise_filtering [of
        "\<lambda>b. Some \<lparr>img_size = 500, img_width = 200, img_height = 200, img_hash = ''h''\<rparr>"
        "''temp_images''" ?ds 0 "''doc''"] small len
    by (metis add_0 plus_1_eq_Suc add.commute)
  have b: "map ve_image_index (extract_drawing_elements
     (\<lambda>b. Some \<lparr>img_size = 500, img_width = 200, img_height = 200, img_hash = ''h''\<rparr>)
     ''temp_images'' ?ds 0 ''doc'') = [2]"
    by (simp add: extract_drawing_elements_def group_drawings_refines near_Some
        get_drawings_bbox_def get_rect_def Let_def power2_eq_square)
  show ?thesis using a b by simp
qed

text \<open>
  Claim C8. The index-and-used-set loop of \<open>group_drawings_by_proximity\<close> computes the
  anchor-based grouping: each primitive not yet grouped, in input order, takes with it
  every primitive not yet grouped whose centre is nearer than the threshold to its own.
  In particular, for three primitives with rectangles, the second at centre distance 10
  and the third at centre distance 500 from the first, threshold 50 gives the groups of
  the first two and of the third alone, and the bounding box of the first group is the
  component-wise union of the two rectangles.
\<close>

theorem C8_anchor_grouping:
  "group_drawings_by_proximity ds thr = anchor_groups thr ds \<and>
   (get_rect a = Some (a0, a1, a2, a3) \<and> get_rect b = Some (b0, b1, b2, b3) \<and>
    get_rect c = Some rc \<and>
    center_distance (a0, a1, a2, a3) (b0, b1, b2, b3) = 10 \<and>
    center_distance (a0, a1, a2, a3) rc = 500 \<longrightarrow>
      group_drawings_by_proximity [a, b, c] 50 = [[a, b], [c]] \<and>
      get_drawings_bbox [a, b] = Box (min a0 b0) (min a1 b1) (max a2 b2) (max a3 b3))"
  using group_drawings_refines [of ds thr] group_three [of a _ b _ c rc]
    bbox_two [of a a0 a1 a2 a3 b b0 b1 b2 b3]
  by blast

theorem C8_anchor_grouping_witness:
  "group_drawings_by_proximity
     [\<lparr>seqno = 0, rect = Rect 0 0 10 10\<rparr>, \<lparr>seqno = 1, rect = Rect 10 0 20 10\<rparr>,
      \<lparr>seqno = 2, rect = Rect 500 0 510 10\<rparr>] 50 =
   [[\<lparr>seqno = 0, rect = Rect 0 0 10 10\<rparr>, \<lparr>seqno = 1, rect = Rect 10 0 20 10\<rparr>],
    [\<lparr>seqno = 2, rect = Rect 500 0 510 10\<rparr>]] \<and>
   get_drawings_bbox [\<lparr>seqno = 0, rect = Rect 0 0 10 10\<rparr>, \<lparr>seqno = 1, rect = Rect 10 0 20 10\<rparr>]
     = Box 0 0 20 10"
  using C8_anchor_grouping [of "[]" 50 "\<lparr>seqno = 0, rect = Rect 0 0 10 10\<rparr>" 0 0 10 10
      "\<lparr>seqno = 1, rect = Rect 10 0 20 10\<rparr>" 10 0 20 10
      "\<lparr>seqno = 2, rect = Rect 500 0 510 10\<rparr>" "(500, 0, 510, 10)"]
    center_distance_example_10 center_distance_example_500
  by (simp add: get_rect_def)








section \<open>Idempotency and the force flag\<close>

lemma upload_to_storage_True:
  "upload_to_storage e w file_path blob_name b = (True, w') \<Longrightarrow>
   storage_available w' \<and>
   (\<exists>name. (case blob_name of PyNone \<Rightarrow> PyStr (path_name file_path) | v \<Rightarrow> v) = PyStr name \<and>
      blobs w' name = Some b)"
  by (auto simp: upload_to_storage_def split: if_splits pyval.splits)

lemma upload_chunks_storage:
  "upload_chunks e w chunks filename = (ok, w') \<Longrightarrow>
   storage_available w' = storage_available w \<and> blobs w' = blobs w"
  by (auto simp: upload_chunks_def Let_def split: if_splits)

lemma process_file_Processed_blob:
  assumes "process_file_with_storage_check e w file_path original_filename force_reprocess
             save_outputs auto_cleanup = (Processed info, w')"
    and "info_blob_storage_uploaded info"
  shows "storage_available w' \<and>
    (\<exists>name b. (if truthy original_filename then original_filename
                else PyStr (path_name file_path)) = PyStr name \<and> blobs w' name = Some b)"
proof -
  let ?bn = "if truthy original_filename then original_filename else PyStr (path_name file_path)"
  have bn: "(case ?bn of PyNone \<Rightarrow> PyStr (path_name file_path) | v \<Rightarrow> v) = ?bn"
    by (cases original_filename) auto
  from assms obtain w4 b w5 where up: "upload_to_storage e w4 file_path ?bn b = (True, w5)"
    and w': "storage_available w' = storage_available w5" "blobs w' = blobs w5"
    by (auto simp: process_file_with_storage_check_def Let_def
        split: option.splits if_splits extraction.splits prod.splits)
  from upload_to_storage_True [OF up] show ?thesis
    by (simp only: bn w') blast
qed

lemma process_file_skip:
  assumes "local_files w file_path = Some data" and "storage_available w"
    and "blobs w (path_name file_path) = Some b" and "blob_probe_ok e (path_name file_path)"
  shows "process_file_with_storage_check e w file_path original_filename False save_outputs
           auto_cleanup =
         (Skipped (path_name file_path), w\<lparr>skipped_files := skipped_files w @ [file_path]\<rparr>)"
  using assms by (simp add: process_file_with_storage_check_def file_exists_in_storage_def)

lemma process_file_not_skipped:
  assumes "local_files w file_path = Some data"
    and "\<not> file_exists_in_storage e w file_path \<or> force_reprocess"
  shows "\<exists>rest. work_log (snd (process_file_with_storage_check e w file_path original_filename
                   force_reprocess save_outputs auto_cleanup)) =
           work_log w @ Extract file_path # rest"
  using assms
  by (auto simp: process_file_with_storage_check_def Let_def upload_chunks_def
      upload_to_storage_def
      split: option.splits if_splits extraction.splits prod.splits pyval.splits)

text \<open>
  Claim C2 as stated fails: the existence check is keyed by the file name, not by the
  content hash. After \<^verbatim>\<open>a.txt\<close> has been processed and stored, \<^verbatim>\<open>b.txt\<close> with the
  same bytes, processed without force, is not skipped: it is extracted, chunked, embedded
  and written to the index again.
\<close>

theorem C2_idempotency_counterexample:
  "local_files demo_world ''a.txt'' = local_files demo_world ''b.txt'' \<and>
   fst (process_file_with_storage_check demo_env demo_world ''a.txt'' PyNone False False True) =
     Processed \<lparr>info_filename = ''a.txt'', info_chunks_created = 1, info_chunks_uploaded = 1,
       info_total_images = 0, info_vector_storage_success = True,
       info_blob_storage_uploaded = True, info_file_hash = ''hello world'',
       info_file_exists_in_storage = False\<rparr> \<and>
   fst (process_file_with_storage_check demo_env demo_after_first ''b.txt'' PyNone False False True) =
     Processed \<lparr>info_filename = ''b.txt'', info_chunks_created = 1, info_chunks_uploaded = 1,
       info_total_images = 0, info_vector_storage_success = True,
       info_blob_storage_uploaded = True, info_file_hash = ''hello world'',
       info_file_exists_in_storage = False\<rparr> \<and>
   work_log (snd (process_file_with_storage_check demo_env demo_after_first ''b.txt'' PyNone
                    False False True)) =
     [Extract ''a.txt'', Chunk 1, Embed 1, IndexWrite 1, BlobWrite ''a.txt'',
      Extract ''b.txt'', Chunk 1, Embed 1, IndexWrite 1, BlobWrite ''b.txt'']"
  by code_simp

text \<open>
  Claim C2, amended. After a run that processed a file and uploaded it to the blob
  container, a run with force_reprocess=false on a file whose name (the last component of
  its path) is the name under which that blob was stored, and for which the existence
  probe of the blob returns, yields status skipped and changes nothing but the list of
  skipped files: no extraction, chunking, embedding or index write is done. When the probe
  raises, the check answers that the file does not exist and the file is extracted again.
\<close>

theorem C2_idempotency_amended:
  assumes "process_file_with_storage_check e w file_path original_filename force_reprocess
             save_outputs auto_cleanup = (Processed info, w')"
    and "info_blob_storage_uploaded info"
    and "(if truthy original_filename then original_filename else PyStr (path_name file_path))
           = PyStr (path_name file_path2)"
    and "local_files w' file_path2 = Some data2"
  shows "(blob_probe_ok e2 (path_name file_path2) \<longrightarrow>
            process_file_with_storage_check e2 w' file_path2 original_filename2 False
              save_outputs2 auto_cleanup2 =
            (Skipped (path_name file_path2),
             w'\<lparr>skipped_files := skipped_files w' @ [file_path2]\<rparr>)) \<and>
         (\<not> blob_probe_ok e2 (path_name file_path2) \<longrightarrow>
            (\<exists>rest. work_log (snd (process_file_with_storage_check e2 w' file_path2
                                     original_filename2 False save_outputs2 auto_cleanup2)) =
                     work_log w' @ Extract file_path2 # rest))"
proof -
  from process_file_Processed_blob [OF assms(1,2)] assms(3)
  obtain b where st: "storage_available w'" "blobs w' (path_name file_path2) = Some b"
    by auto
  have skip: "process_file_with_storage_check e2 w' file_path2 original_filename2 False
              save_outputs2 auto_cleanup2 =
            (Skipped (path_name file_path2),
             w'\<lparr>skipped_files := skipped_files w' @ [file_path2]\<rparr>)"
    if "blob_probe_ok e2 (path_name file_path2)"
    using assms(4) st that by (rule process_file_skip)
  have again: "\<exists>rest. work_log (snd (process_file_with_storage_check e2 w' file_path2
                                     original_filename2 False save_outputs2 auto_cleanup2)) =
                     work_log w' @ Extract file_path2 # rest"
    if "\<not> blob_probe_ok e2 (path_name file_path2)"
  proof -
    have "\<not> file_exists_in_storage e2 w' file_path2"
      using that st by (simp add: file_exists_in_storage_def)
    then show ?thesis
      using process_file_not_skipped [OF assms(4), of e2 False] by blast
  qed
  show ?thesis
    using skip again by blast
qed

lemma demo_first_result:
  "fst (process_file_with_storage_check demo_env demo_world ''a.txt'' PyNone False False True) =
     Processed \<lparr>info_filename = ''a.txt'', info_chunks_created = 1, info_chunks_uploaded = 1,
       info_total_images = 0, info_vector_storage_success = True,
       info_blob_storage_uploaded = True, info_file_hash = ''hello world'',
       info_file_exists_in_storage = False\<rparr>"
  by code_simp

lemma demo_after_first_file: "local_files demo_after_first ''a.txt'' = Some ''hello world''"
  by code_simp

lemma demo_after_first_log:
  "work_log demo_after_first =
     [Extract ''a.txt'', Chunk 1, Embed 1, IndexWrite 1, BlobWrite ''a.txt'']"
  by code_simp

lemma path_name_a: "path_name ''a.txt'' = ''a.txt''"
  by code_simp

lemma demo_probe_fails: "\<not> blob_probe_ok demo_env_probe_fails (path_name ''a.txt'')"
  by (simp add: demo_env_probe_fails_def)

lemma demo_probe_ok: "blob_probe_ok demo_env (path_name ''a.txt'')"
  by (simp add: demo_env_def)

theorem C2_idempotency_amended_witness:
  "fst (process_file_with_storage_check demo_env demo_after_first ''a.txt'' PyNone False False
          True) = Skipped ''a.txt'' \<and>
   work_log (snd (process_file_with_storage_check demo_env demo_after_first ''a.txt'' PyNone
                    False False True)) =
     [Extract ''a.txt'', Chunk 1, Embed 1, IndexWrite 1, BlobWrite ''a.txt''] \<and>
   take 6 (work_log (snd (process_file_with_storage_check demo_env_probe_fails demo_after_first
                            ''a.txt'' PyNone False False True))) =
     [Extract ''a.txt'', Chunk 1, Embed 1, IndexWrite 1, BlobWrite ''a.txt'', Extract ''a.txt'']"
proof -
  let ?info = "\<lparr>info_filename = ''a.txt'', info_chunks_created = 1, info_chunks_uploaded = 1,
       info_total_images = 0, info_vector_storage_success = True,
       info_blob_storage_uploaded = True, info_file_hash = ''hello world'',
       info_file_exists_in_storage = False\<rparr>"
  have h1: "process_file_with_storage_check demo_env demo_world ''a.txt'' PyNone False False True
              = (Processed ?info, demo_after_first)"
    using demo_first_result by (simp add: prod_eq_iff demo_after_first_def)
  have h2: "info_blob_storage_uploaded ?info"
    by simp
  have h3: "(if truthy PyNone then PyNone else PyStr (path_name ''a.txt'')) =
              PyStr (path_name ''a.txt'')"
    by simp
  have skipped: "process_file_with_storage_check demo_env demo_after_first ''a.txt'' PyNone False
                   False True =
                 (Skipped (path_name ''a.txt''),
                  demo_after_first\<lparr>skipped_files := skipped_files demo_after_first @ [''a.txt'']\<rparr>)"
    using C2_idempotency_amended [OF h1 h2 h3 demo_after_first_file,
        of demo_env PyNone False True] demo_probe_ok
    by blast
  obtain rest where "work_log (snd (process_file_with_storage_check demo_env_probe_fails
                       demo_after_first ''a.txt'' PyNone False False True)) =
                     work_log demo_after_first @ Extract ''a.txt'' # rest"
    using C2_idempotency_amended [OF h1 h2 h3 demo_after_first_file,
        of demo_env_probe_fails PyNone False True] demo_probe_fails
    by blast
  then have again: "take 6 (work_log (snd (process_file_with_storage_check demo_env_probe_fails
                       demo_after_first ''a.txt'' PyNone False False True))) =
     [Extract ''a.txt'', Chunk 1, Embed 1, IndexWrite 1, BlobWrite ''a.txt'', Extract ''a.txt'']"
    by (simp add: demo_after_first_log)
  show ?thesis
    using again by (simp add: skipped path_name_a demo_after_first_log)
qed

text \<open>
  Claim C4 fails on the batch wrapper. The file \<^verbatim>\<open>a.txt\<close> is in the blob container;
  the batch call with force_reprocess=True (and save_outputs=False) passes True in the
  place of \<^verbatim>\<open>original_filename\<close> and False in the place of \<^verbatim>\<open>force_reprocess\<close>:
  the file is skipped and no work is done.
\<close>

theorem C4_batch_force_failing_input:
  "fst (process_batch_with_storage_check demo_env demo_after_first [''a.txt''] True False True)
     = [Skipped ''a.txt''] \<and>
   work_log (snd (process_batch_with_storage_check demo_env demo_after_first [''a.txt'']
                    True False True)) = work_log demo_after_first \<and>
   fst (process_file_with_storage_check demo_env demo_after_first ''a.txt'' PyNone True False
          True) =
     Processed \<lparr>info_filename = ''a.txt'', info_chunks_created = 1, info_chunks_uploaded = 1,
       info_total_images = 0, info_vector_storage_success = True,
       info_blob_storage_uploaded = True, info_file_hash = ''hello world'',
       info_file_exists_in_storage = True\<rparr>"
  by code_simp

end
